theory Spec2Isabelle
  imports Main
begin

text \<open>
  A model of the notification dispatcher: the phone number formatting of the SMS
  adapter, the retry policy, the persistence layer, the channel adapters, the queue
  processor with its worker handlers, the submission service and its route. The
  provider's answers, the clock and the library functions of the environment are inputs;
  a SQL statement the database accepts is taken to execute on a schema that has the
  columns it names, and one the database rejects is the error it raises.
\<close>

section \<open>Strings as the source uses them\<close>

text \<open>
  A JavaScript string is modelled as a \<^typ>\<open>string\<close> (a list of characters). The
  functions below are the string primitives the verified code calls.
\<close>

definition isDigit :: "char \<Rightarrow> bool" where
  \<comment> \<open>the complement of the regular expression class \<^verbatim>\<open>\D\<close>\<close>
  "isDigit c = (c \<in> set ''0123456789'')"

definition startsWith :: "string \<Rightarrow> string \<Rightarrow> bool" where
  "startsWith s p = (take (length p) s = p)"

section \<open>SMS adapter: phone number formatting\<close>

text \<open>
  \<^verbatim>\<open>SMSService.formatPhoneNumber\<close>:
  \<^verbatim>\<open>
    const cleaned = phoneNumber.replace(/\D/g, "")
    if (cleaned.length === 10) return `+1${cleaned}`
    if (cleaned.length > 10 && !phoneNumber.startsWith("+")) return `+${cleaned}`
    return phoneNumber
  \<close>
\<close>

definition formatPhoneNumber :: "string \<Rightarrow> string" where
  "formatPhoneNumber phoneNumber =
     (let cleaned = filter isDigit phoneNumber in
      if length cleaned = 10 then ''+1'' @ cleaned
      else if length cleaned > 10 \<and> \<not> startsWith phoneNumber ''+'' then ''+'' @ cleaned
      else phoneNumber)"

section \<open>Retry policy\<close>

datatype backoff = Exponential | Fixed

record RetryConfig =
  maxRetries :: nat
  backoffType :: backoff
  backoffDelay :: nat
  maxBackoffDelay :: "nat option"

text \<open>
  The table \<^verbatim>\<open>NotificationQueueProcessor.retryConfigs\<close>. It is a plain object that the
  code indexes with the channel name of the job, \<^verbatim>\<open>this.retryConfigs[job.data.channel]\<close>:
  a name of the table finds its policy, a name of a member of \<^verbatim>\<open>Object.prototype\<close> finds
  that member, which has none of the fields of a policy, and any other name finds
  undefined.
\<close>

definition retryConfigs_table :: "(string \<times> RetryConfig) list" where
  "retryConfigs_table =
     [(''email'', \<lparr>maxRetries = 5, backoffType = Exponential, backoffDelay = 2000,
                   maxBackoffDelay = Some 300000\<rparr>),
      (''sms'', \<lparr>maxRetries = 3, backoffType = Exponential, backoffDelay = 5000,
                 maxBackoffDelay = Some 600000\<rparr>),
      (''push'', \<lparr>maxRetries = 4, backoffType = Exponential, backoffDelay = 1000,
                  maxBackoffDelay = Some 120000\<rparr>),
      (''slack'', \<lparr>maxRetries = 3, backoffType = Fixed, backoffDelay = 10000,
                   maxBackoffDelay = None\<rparr>),
      (''telegram'', \<lparr>maxRetries = 3, backoffType = Fixed, backoffDelay = 10000,
                      maxBackoffDelay = None\<rparr>)]"

definition object_prototype_names :: "string list" where
  "object_prototype_names =
     [''constructor'', ''__defineGetter__'', ''__defineSetter__'', ''hasOwnProperty'',
      ''__lookupGetter__'', ''__lookupSetter__'', ''isPrototypeOf'', ''propertyIsEnumerable'',
      ''toString'', ''valueOf'', ''__proto__'', ''toLocaleString'']"

datatype policy_lookup = Undefined | Own RetryConfig | Inherited

definition retryConfigs :: "string \<Rightarrow> policy_lookup" where
  "retryConfigs ch =
     (case map_of retryConfigs_table ch of
        Some retryConfig \<Rightarrow> Own retryConfig
      | None \<Rightarrow> if ch \<in> set object_prototype_names then Inherited else Undefined)"

text \<open>
  The delay computed at the head of \<^verbatim>\<open>scheduleRetry\<close>:
  \<^verbatim>\<open>
    if (retryConfig.backoffType === "exponential") {
      delay = Math.min(retryConfig.backoffDelay * Math.pow(2, retryCount - 1),
                       retryConfig.maxBackoffDelay || retryConfig.backoffDelay * 10)
    } else { delay = retryConfig.backoffDelay }
  \<close>
  The operator \<^verbatim>\<open>||\<close> takes its right operand when the left one is undefined or 0.
  The only caller passes \<^verbatim>\<open>currentRetries + 1\<close>, so \<open>retryCount\<close> is at least 1 and the
  exponent is a natural number. The numbers of a policy are integers that a double holds
  exactly; a product is then held exactly too, or is so large that the minimum is the cap.
\<close>

definition retryDelay :: "RetryConfig \<Rightarrow> nat \<Rightarrow> nat" where
  "retryDelay retryConfig retryCount =
     (if backoffType retryConfig = Exponential
      then min (backoffDelay retryConfig * 2 ^ (retryCount - 1))
               (case maxBackoffDelay retryConfig of
                  None \<Rightarrow> backoffDelay retryConfig * 10
                | Some c \<Rightarrow> if c = 0 then backoffDelay retryConfig * 10 else c)
      else backoffDelay retryConfig)"

text \<open>The delay and the cap as the specification words them.\<close>

definition spec_cap :: "RetryConfig \<Rightarrow> nat" where
  "spec_cap p = (case maxBackoffDelay p of None \<Rightarrow> backoffDelay p * 10 | Some c \<Rightarrow> c)"

definition spec_delay :: "RetryConfig \<Rightarrow> nat \<Rightarrow> nat" where
  "spec_delay p k =
     (case backoffType p of
        Exponential \<Rightarrow> min (backoffDelay p * 2 ^ (k - 1)) (spec_cap p)
      | Fixed \<Rightarrow> backoffDelay p)"

definition toLowerCase :: "string \<Rightarrow> string" where
  \<comment> \<open>on the ASCII letters, which is all the channel and priority names contain\<close>
  "toLowerCase s =
     map (\<lambda>c. case map_of (zip ''ABCDEFGHIJKLMNOPQRSTUVWXYZ'' ''abcdefghijklmnopqrstuvwxyz'') c of
                Some l \<Rightarrow> l | None \<Rightarrow> c) s"

fun toString_nat :: "nat \<Rightarrow> string" where
  "toString_nat n =
     (if n < 10 then [''0123456789'' ! n]
      else toString_nat (n div 10) @ [''0123456789'' ! (n mod 10)])"

declare toString_nat.simps [simp del]

definition toString_int :: "int \<Rightarrow> string" where
  \<comment> \<open>\<^verbatim>\<open>Number.prototype.toString\<close> on an integer\<close>
  "toString_int i = (if i < 0 then CHR ''-'' # toString_nat (nat (- i)) else toString_nat (nat i))"

section \<open>Persistence layer\<close>

text \<open>
  Timestamps are milliseconds. Every SQL statement is modelled by what it does to the table
  when it executes; the table is the list of its rows. The interface
  \<^verbatim>\<open>Notification\<close> of \<^verbatim>\<open>database/models/Notification.ts\<close>; the column \<^verbatim>\<open>id\<close> is
  called \<open>nid\<close> here.
\<close>

type_synonym timestamp = int

record Notification =
  nid :: nat
  user_id :: "int option"
  channel :: string
  recipient :: string
  subject :: "string option"
  content :: string
  status :: string
  scheduled_at :: timestamp
  sent_at :: "timestamp option"
  created_at :: timestamp
  updated_at :: timestamp
  retry_count :: nat
  max_retries :: nat
  priority :: "string option"
  last_processed_at :: "timestamp option"

record NotificationLog =
  notification_id :: nat
  log_status :: string
  log_message :: string
  error_details :: "string option"
  provider_response :: "string option"
  log_created_at :: timestamp

text \<open>\<^verbatim>\<open>UPDATE notifications SET ... WHERE id = $n\<close>\<close>

definition sql_update :: "nat \<Rightarrow> (Notification \<Rightarrow> Notification) \<Rightarrow> Notification list \<Rightarrow> Notification list" where
  "sql_update i f tbl = map (\<lambda>r. if nid r = i then f r else r) tbl"

text \<open>
  \<^verbatim>\<open>NotificationModel.create\<close>: the INSERT names the columns user\_id, channel, recipient,
  subject, content, status, max\_retries and scheduled\_at; the others take their
  defaults (retry\_count 0, the timestamps now, the rest NULL). The operator \<^verbatim>\<open>||\<close>
  replaces 0, the empty string and undefined by its right operand. The first argument
  is the value the SERIAL key takes.
\<close>

definition create ::
  "nat \<Rightarrow> timestamp \<Rightarrow> int option \<Rightarrow> string \<Rightarrow> string \<Rightarrow> string option \<Rightarrow> string \<Rightarrow> string \<Rightarrow>
   nat \<Rightarrow> timestamp option \<Rightarrow> Notification" where
  "create i now uid ch rcp subj cont st maxr sched =
     \<lparr>nid = i,
      user_id = (if uid = Some 0 then None else uid),
      channel = ch,
      recipient = rcp,
      subject = (if subj = Some [] then None else subj),
      content = cont,
      status = (if st = [] then ''pending'' else st),
      scheduled_at = (case sched of None \<Rightarrow> now | Some t \<Rightarrow> t),
      sent_at = None,
      created_at = now,
      updated_at = now,
      retry_count = 0,
      max_retries = (if maxr = 0 then 3 else maxr),
      priority = None,
      last_processed_at = None\<rparr>"

definition findById :: "nat \<Rightarrow> Notification list \<Rightarrow> Notification option" where
  "findById i tbl = find (\<lambda>r. nid r = i) tbl"

text \<open>
  \<^verbatim>\<open>NotificationModel.updateStatus\<close>:
  \<^verbatim>\<open>
    const sentAt = status === "sent" ? new Date() : null
    UPDATE notifications SET status = $1, updated_at = CURRENT_TIMESTAMP, sent_at = $2 WHERE id = $3
  \<close>
\<close>

definition updateStatus :: "timestamp \<Rightarrow> nat \<Rightarrow> string \<Rightarrow> Notification list \<Rightarrow> Notification list" where
  "updateStatus now i st tbl =
     (let sentAt = (if st = ''sent'' then Some now else None) in
      sql_update i (\<lambda>r. r\<lparr>status := st, updated_at := now, sent_at := sentAt\<rparr>) tbl)"

definition updateLastProcessed :: "timestamp \<Rightarrow> nat \<Rightarrow> Notification list \<Rightarrow> Notification list" where
  "updateLastProcessed now i tbl =
     sql_update i (\<lambda>r. r\<lparr>last_processed_at := Some now, updated_at := now\<rparr>) tbl"

definition incrementRetryCount :: "timestamp \<Rightarrow> nat \<Rightarrow> Notification list \<Rightarrow> Notification list" where
  "incrementRetryCount now i tbl =
     sql_update i (\<lambda>r. r\<lparr>retry_count := retry_count r + 1, updated_at := now\<rparr>) tbl"

text \<open>
  \<^verbatim>\<open>NotificationModel.getStaleNotifications\<close>:
  \<^verbatim>\<open>
    SELECT * FROM notifications WHERE status = 'processing'
      AND last_processed_at < CURRENT_TIMESTAMP - INTERVAL '${minutesStale} minutes'
      ORDER BY last_processed_at ASC
  \<close>
  A comparison with NULL selects nothing.
\<close>

definition is_stale :: "int \<Rightarrow> timestamp \<Rightarrow> Notification \<Rightarrow> bool" where
  "is_stale minutesStale now r =
     (status r = ''processing'' \<and>
      (case last_processed_at r of None \<Rightarrow> False | Some t \<Rightarrow> t < now - minutesStale * 60000))"

definition getStaleNotifications :: "int \<Rightarrow> timestamp \<Rightarrow> Notification list \<Rightarrow> Notification list" where
  "getStaleNotifications minutesStale now tbl =
     sort_key (\<lambda>r. case last_processed_at r of Some t \<Rightarrow> t | None \<Rightarrow> 0)
       (filter (is_stale minutesStale now) tbl)"

text \<open>
  \<^verbatim>\<open>NotificationModel.list(limit, offset, status)\<close>:
  \<^verbatim>\<open>
    let queryStr = `SELECT n.*, ... FROM notifications n LEFT JOIN notification_users u ...`
    if (status) { queryStr += ` WHERE n.status = $1 ` }
    const result = await query(`${queryStr} ORDER BY n.created_at DESC LIMIT $2 OFFSET $3`,
                               [status, limit, offset])
  \<close>
  Three values are bound in both cases. Without a status (undefined or empty) the text
  mentions only \<^verbatim>\<open>$2\<close> and \<^verbatim>\<open>$3\<close>: PostgreSQL cannot determine the type of the
  parameter \<^verbatim>\<open>$1\<close> and rejects the statement, so the call throws. With a status the
  database still rejects a negative LIMIT or OFFSET. Rows with equal \<^verbatim>\<open>created_at\<close>
  come in an order SQL leaves open; the model takes the reverse of the stable ascending
  sort.
\<close>

datatype db_error = UndeterminedParameter | NegativeLimitOrOffset

definition list_n ::
  "int \<Rightarrow> int \<Rightarrow> string option \<Rightarrow> Notification list \<Rightarrow> db_error + Notification list" where
  "list_n lim offs st tbl =
     (case st of
        None \<Rightarrow> Inl UndeterminedParameter
      | Some t \<Rightarrow>
          if t = [] then Inl UndeterminedParameter
          else if lim < 0 \<or> offs < 0 then Inl NegativeLimitOrOffset
          else Inr (take (nat lim) (drop (nat offs)
                      (rev (sort_key created_at (filter (\<lambda>r. status r = t) tbl))))))"

text \<open>The interface \<^verbatim>\<open>NotificationStatus\<close> as the service fills it.\<close>

record NotificationStatus =
  ns_id :: string
  ns_userId :: "string option"
  ns_status :: string
  ns_channels :: "(string \<times> string) list"
  ns_createdAt :: timestamp
  ns_updatedAt :: timestamp
  ns_scheduledAt :: "timestamp option"
  ns_retryCount :: nat

definition toStatus :: "Notification \<Rightarrow> NotificationStatus" where
  "toStatus n =
     \<lparr>ns_id = toString_nat (nid n),
      ns_userId = map_option toString_int (user_id n),
      ns_status = status n,
      ns_channels = [(channel n, status n)],
      ns_createdAt = created_at n,
      ns_updatedAt = updated_at n,
      ns_scheduledAt = Some (scheduled_at n),
      ns_retryCount = retry_count n\<rparr>"

record UserNotifications =
  notifications :: "NotificationStatus list"
  total_n :: nat
  page_n :: int
  limit_n :: int

text \<open>
  \<^verbatim>\<open>NotificationService.getUserNotifications\<close>:
  \<^verbatim>\<open>
    const offset = (page - 1) * limit
    const notifications = await NotificationModel.list(limit, offset)
    const userNotifications = userId
      ? notifications.filter((n) => n.user_id?.toString() === userId) : notifications
    const total = userNotifications.length
  \<close>
  The call of \<^verbatim>\<open>list\<close> passes no status. An empty \<open>userId\<close> is falsy. The field
  \<^verbatim>\<open>totalPages\<close> (a quotient that is not a number when \<open>limit\<close> is 0) is left out of
  the result.
\<close>

definition getUserNotifications ::
  "string \<Rightarrow> int \<Rightarrow> int \<Rightarrow> Notification list \<Rightarrow> db_error + UserNotifications" where
  "getUserNotifications userId page limit tbl =
     (let offset = (page - 1) * limit in
      case list_n limit offset None tbl of
        Inl e \<Rightarrow> Inl e
      | Inr notifs \<Rightarrow>
          let userNotifications =
                (if userId \<noteq> [] then filter (\<lambda>n. map_option toString_int (user_id n) = Some userId) notifs
                 else notifs);
              total = length userNotifications
          in Inr \<lparr>notifications = map toStatus userNotifications, total_n = total,
                   page_n = page, limit_n = limit\<rparr>)"

text \<open>
  What the sentence about \<^verbatim>\<open>getUserNotifications\<close> describes: the rows of the given
  user among the page cut out of all the rows, most recent first.
\<close>

definition global_page :: "int \<Rightarrow> int \<Rightarrow> Notification list \<Rightarrow> Notification list" where
  "global_page page limit tbl =
     take (nat limit) (drop (nat ((page - 1) * limit)) (rev (sort_key created_at tbl)))"

definition belongs_to :: "string \<Rightarrow> Notification \<Rightarrow> bool" where
  "belongs_to userId n = (map_option toString_int (user_id n) = Some userId)"

definition user_rows_of_page :: "string \<Rightarrow> int \<Rightarrow> int \<Rightarrow> Notification list \<Rightarrow> Notification list" where
  "user_rows_of_page userId page limit tbl = filter (belongs_to userId) (global_page page limit tbl)"

section \<open>Channel adapters\<close>

text \<open>
  What the provider answers to the one request an adapter makes is an input of the model.
  A rejection carries its message and the class the specification gives it; the adapters
  and the dispatcher only ever see the message, since the source throws plain
  \<^verbatim>\<open>Error\<close> objects. A thrown error is modelled by its message, on the left of a sum.
\<close>

datatype err_class = Transient | Permanent | Misconfigured

datatype provider_reply = Accepted string | Rejected err_class string

type_synonym js_error = string

record SendResult =
  success :: bool
  messageId :: "string option"
  error :: "string option"

text \<open>
  The configuration the adapters read at start-up, and three library functions the
  service calls on request values: \<^verbatim>\<open>Number.parseInt\<close>, the text the database driver
  sends for a value that is not a string, and the timestamp the database reads from a
  text (none when it rejects the text).
\<close>

datatype json = JNull | JBool bool | JNum int | JStr string | JArr "json list"
  | JObj "(string \<times> json) list"

record env =
  smsConfigured :: bool
  pushConfigured :: bool
  telegramToken :: string
  parseInt :: "string \<Rightarrow> int option"
  pg_text :: "json \<Rightarrow> string"
  pg_timestamp :: "json \<Rightarrow> timestamp option"

text \<open>
  \<^verbatim>\<open>EmailService\<close>. The constructor runs \<^verbatim>\<open>initializeTransporter\<close>, which returns
  with \<^verbatim>\<open>isConfigured = false\<close> when the SMTP credentials are missing and otherwise
  calls \<^verbatim>\<open>nodemailer.createTransporter(smtpConfig)\<close> inside a try block. The library
  has no function of that name (its factory is \<^verbatim>\<open>createTransport\<close>), so the call
  throws and the catch block sets \<^verbatim>\<open>isConfigured = false\<close> again. The flag is written
  nowhere else: \<^verbatim>\<open>send\<close> always throws at its first statement,
  \<^verbatim>\<open>if (!this.isConfigured) throw new Error("Email service is not configured. ...")\<close>,
  and never reaches the provider.
\<close>

definition emailService_isConfigured :: bool where
  "emailService_isConfigured = False"

definition emailService_send :: "provider_reply \<Rightarrow> js_error + SendResult" where
  "emailService_send reply =
     (if \<not> emailService_isConfigured
      then Inl ''Email service is not configured. Please check SMTP settings.''
      else case reply of
        Accepted mid \<Rightarrow> Inr \<lparr>success = True, messageId = Some mid, error = None\<rparr>
      | Rejected c m \<Rightarrow> Inl (''Email delivery failed: '' @ m))"

text \<open>
  \<^verbatim>\<open>SMSService.send\<close> and \<^verbatim>\<open>sendSMS\<close>: the catch block returns
  \<^verbatim>\<open>{ success: false, error: error.message }\<close>.
\<close>

definition smsService_send :: "env \<Rightarrow> provider_reply \<Rightarrow> js_error + SendResult" where
  "smsService_send e reply =
     (if \<not> smsConfigured e then Inl ''SMS service is not configured. Please check Twilio settings.''
      else case reply of
        Accepted mid \<Rightarrow> Inr \<lparr>success = True, messageId = Some mid, error = None\<rparr>
      | Rejected c m \<Rightarrow> Inr \<lparr>success = False, messageId = None, error = Some m\<rparr>)"

text \<open>\<^verbatim>\<open>PushService.send\<close> and \<^verbatim>\<open>sendPush\<close>, whose catch block returns as the SMS one does.\<close>

definition pushService_send :: "env \<Rightarrow> provider_reply \<Rightarrow> js_error + SendResult" where
  "pushService_send e reply =
     (if \<not> pushConfigured e then Inl ''Push service is not configured. Please check Firebase settings.''
      else case reply of
        Accepted mid \<Rightarrow> Inr \<lparr>success = True, messageId = Some mid, error = None\<rparr>
      | Rejected c m \<Rightarrow> Inr \<lparr>success = False, messageId = None, error = Some m\<rparr>)"

text \<open>\<^verbatim>\<open>SlackService.send\<close> throws when the response is not ok.\<close>

definition slackService_send :: "provider_reply \<Rightarrow> js_error + SendResult" where
  "slackService_send reply =
     (case reply of
        Accepted mid \<Rightarrow> Inr \<lparr>success = True, messageId = None, error = None\<rparr>
      | Rejected c m \<Rightarrow> Inl (''Slack webhook failed: '' @ m))"

text \<open>\<^verbatim>\<open>TelegramService.send\<close> throws without a token and when the response is not ok.\<close>

definition telegramService_send :: "env \<Rightarrow> provider_reply \<Rightarrow> js_error + SendResult" where
  "telegramService_send e reply =
     (if telegramToken e = [] then Inl ''Telegram service not configured''
      else case reply of
        Accepted mid \<Rightarrow> Inr \<lparr>success = True, messageId = Some mid, error = None\<rparr>
      | Rejected c m \<Rightarrow> Inl (''Telegram API error: '' @ m))"

section \<open>Queue and dispatcher\<close>

record NotificationJob =
  notificationId :: nat
  job_channel :: string
  job_recipient :: string
  job_subject :: "string option"
  job_content :: string
  job_userId :: "int option"
  job_priority :: string

record BrokerJob =
  jobId :: string
  job_name :: string
  job_data :: NotificationJob
  job_delay :: nat
  queue_priority :: int

text \<open>
  \<^verbatim>\<open>queueNotification\<close> awaits \<^verbatim>\<open>queue.add\<close> and only then writes the status queued:
  \<^verbatim>\<open>
    const job = await this.queue.add(`notification-${id}`, jobData, { priority, jobId })
    await this.updateNotificationStatus(id, "queued", "Notification queued for processing")
  \<close>
  Between the two the job is visible to the workers. A write that is still to come is
  kept in the state: after a submission (\<open>Queued\<close>), or after a manual retry, which
  then also writes its log row (\<open>RetryQueued\<close>).
\<close>

datatype pending_write = Queued nat | RetryQueued nat

fun write_target :: "pending_write \<Rightarrow> nat" where
  "write_target (Queued i) = i"
| "write_target (RetryQueued i) = i"

text \<open>
  The state: the two tables, the jobs the broker holds that no worker has taken yet
  (waiting or delayed), the jobs the broker keeps as failed, the status writes still to
  come, and the next value of the SERIAL key.
\<close>

record sys =
  rows :: "Notification list"
  logs :: "NotificationLog list"
  queue :: "BrokerJob list"
  failed_jobs :: "BrokerJob list"
  in_flight :: "pending_write list"
  next_id :: nat

definition init :: sys where
  "init = \<lparr>rows = [], logs = [], queue = [], failed_jobs = [], in_flight = [], next_id = 1\<rparr>"

text \<open>
  Modelled from the spec: the broker's enqueue, which is the library BullMQ and not
  code of this repository. Section 4.3 (2): a caller-provided job id is deduplicated, so
  that a replay of the same enqueue produces at most one active job.
\<close>

definition queue_add :: "BrokerJob \<Rightarrow> BrokerJob list \<Rightarrow> BrokerJob list" where
  "queue_add j q = (if jobId j \<in> set (map jobId q) then q else q @ [j])"

definition getPriority :: "string \<Rightarrow> int" where
  "getPriority p =
     (case map_of [(''urgent'', 10), (''high'', 5), (''normal'', 0), (''low'', - 5)] (toLowerCase p) of
        Some v \<Rightarrow> v
      | None \<Rightarrow> 0)"

definition log_entry :: "timestamp \<Rightarrow> nat \<Rightarrow> string \<Rightarrow> string \<Rightarrow> NotificationLog" where
  "log_entry now i st msg =
     \<lparr>notification_id = i, log_status = st, log_message = msg, error_details = None,
      provider_response = None, log_created_at = now\<rparr>"

text \<open>
  \<^verbatim>\<open>updateNotificationStatus\<close>: the status update, the log row, the touch of
  \<^verbatim>\<open>last_processed_at\<close>. Every caller passes the id of a row that exists.
\<close>

definition updateNotificationStatus :: "timestamp \<Rightarrow> nat \<Rightarrow> string \<Rightarrow> string \<Rightarrow> sys \<Rightarrow> sys" where
  "updateNotificationStatus now i st msg s =
     s\<lparr>rows := updateLastProcessed now i (updateStatus now i st (rows s)),
       logs := logs s @ [log_entry now i st msg]\<rparr>"

text \<open>
  The two halves of \<^verbatim>\<open>queueNotification\<close>, and the function itself when nothing
  comes between them.
\<close>

definition enqueue :: "NotificationJob \<Rightarrow> sys \<Rightarrow> sys" where
  "enqueue jobData s =
     (let name = ''notification-'' @ toString_nat (notificationId jobData) in
      s\<lparr>queue := queue_add \<lparr>jobId = name, job_name = name, job_data = jobData, job_delay = 0,
                             queue_priority = getPriority (job_priority jobData)\<rparr> (queue s)\<rparr>)"

definition mark_queued :: "timestamp \<Rightarrow> nat \<Rightarrow> sys \<Rightarrow> sys" where
  "mark_queued now i s =
     updateNotificationStatus now i ''queued'' ''Notification queued for processing'' s"

definition queueNotification :: "timestamp \<Rightarrow> NotificationJob \<Rightarrow> sys \<Rightarrow> sys" where
  "queueNotification now jobData s = mark_queued now (notificationId jobData) (enqueue jobData s)"

definition leave_pending :: "pending_write \<Rightarrow> sys \<Rightarrow> sys" where
  "leave_pending w s = s\<lparr>in_flight := in_flight s @ [w]\<rparr>"

text \<open>
  A write in flight is made: the second half of \<^verbatim>\<open>queueNotification\<close>, followed for a
  manual retry by the log row of \<^verbatim>\<open>retryNotification\<close>.
\<close>

definition late_write :: "timestamp \<Rightarrow> pending_write \<Rightarrow> sys \<Rightarrow> sys" where
  "late_write now w s =
     (if w \<in> set (in_flight s)
      then let s1 = mark_queued now (write_target w) (s\<lparr>in_flight := remove1 w (in_flight s)\<rparr>) in
           (case w of
              Queued i \<Rightarrow> s1
            | RetryQueued i \<Rightarrow>
                s1\<lparr>logs := logs s1 @
                  [log_entry now i ''retry_queued'' ''Notification manually queued for retry'']\<rparr>)
      else s)"

text \<open>
  \<^verbatim>\<open>processNotification\<close>: the row goes to processing, the adapter of the channel is
  called, and a log row records the delivery or the error. The result is the error the
  function rethrows, if any. The text of \<^verbatim>\<open>JSON.stringify\<close> is kept abstract: the
  delivered log holds the error field of the adapter's result.
\<close>

definition call_adapter :: "env \<Rightarrow> string \<Rightarrow> provider_reply \<Rightarrow> js_error + SendResult" where
  "call_adapter e ch reply =
     (let c = toLowerCase ch in
      if c = ''email'' then emailService_send reply
      else if c = ''sms'' then smsService_send e reply
      else if c = ''push'' then pushService_send e reply
      else if c = ''slack'' then slackService_send reply
      else if c = ''telegram'' then telegramService_send e reply
      else Inl (''Unsupported channel: '' @ ch))"

definition processNotification ::
  "env \<Rightarrow> timestamp \<Rightarrow> NotificationJob \<Rightarrow> provider_reply \<Rightarrow> sys \<Rightarrow> js_error option \<times> sys" where
  "processNotification e now jobData reply s =
     (let i = notificationId jobData;
          s1 = updateNotificationStatus now i ''processing'' ''Processing notification'' s
      in case call_adapter e (job_channel jobData) reply of
           Inr result \<Rightarrow>
             (None, s1\<lparr>logs := logs s1 @
                [(log_entry now i ''delivered'' (''Successfully delivered via '' @ job_channel jobData))
                   \<lparr>provider_response := Some (case error result of None \<Rightarrow> [] | Some m \<Rightarrow> m)\<rparr>]\<rparr>)
         | Inl msg \<Rightarrow>
             (Some msg, s1\<lparr>logs := logs s1 @
                [(log_entry now i ''error'' (''Failed to send via '' @ job_channel jobData @ '': '' @ msg))
                   \<lparr>error_details := Some msg\<rparr>]\<rparr>))"

text \<open>
  \<^verbatim>\<open>scheduleRetry\<close>: the delay, the increment of the retry count, the log row, and the
  delayed job handed to the broker. Its only caller has found a policy of the table for
  the channel; the function is not reached otherwise.
\<close>

definition retry_job :: "NotificationJob \<Rightarrow> nat \<Rightarrow> nat \<Rightarrow> BrokerJob" where
  "retry_job jobData retryCount delay =
     \<lparr>jobId = ''retry-'' @ toString_nat (notificationId jobData) @ ''-'' @ toString_nat retryCount,
      job_name = ''notification-retry-'' @ toString_nat (notificationId jobData),
      job_data = jobData, job_delay = delay,
      queue_priority = getPriority (job_priority jobData)\<rparr>"

definition scheduleRetry :: "timestamp \<Rightarrow> NotificationJob \<Rightarrow> nat \<Rightarrow> js_error \<Rightarrow> sys \<Rightarrow> sys" where
  "scheduleRetry now jobData retryCount errorMessage s =
     (case retryConfigs (job_channel jobData) of
        Own retryConfig \<Rightarrow>
          let delay = retryDelay retryConfig retryCount;
              i = notificationId jobData
          in s\<lparr>rows := incrementRetryCount now i (rows s),
               logs := logs s @
                 [log_entry now i ''retry_scheduled''
                    (''Retry '' @ toString_nat retryCount @ ''/'' @ toString_nat (maxRetries retryConfig)
                     @ '' scheduled in '' @ toString_nat delay @ ''ms. Previous error: '' @ errorMessage)],
               queue := queue_add (retry_job jobData retryCount delay) (queue s)\<rparr>
      | _ \<Rightarrow> s)"

text \<open>
  The handlers of the worker events. \<^verbatim>\<open>completed\<close> marks the row sent. \<^verbatim>\<open>failed\<close>
  reads the row and the policy of the job's channel: without a row it returns; when the
  lookup finds undefined, reading \<^verbatim>\<open>maxRetries\<close> throws and nothing more happens;
  otherwise
  \<^verbatim>\<open>
    if (currentRetries < retryConfig.maxRetries) scheduleRetry(job.data, currentRetries + 1, err.message)
    else updateNotificationStatus(id, "failed", `Max retries (...) exceeded. Last error: ...`)
  \<close>
  where for a member of \<^verbatim>\<open>Object.prototype\<close> the field \<^verbatim>\<open>maxRetries\<close> is undefined, the
  comparison is false, and the row is marked failed.
\<close>

definition on_completed :: "timestamp \<Rightarrow> NotificationJob \<Rightarrow> sys \<Rightarrow> sys" where
  "on_completed now jobData s =
     updateNotificationStatus now (notificationId jobData) ''sent'' ''Notification sent successfully'' s"

definition on_failed :: "timestamp \<Rightarrow> NotificationJob \<Rightarrow> js_error \<Rightarrow> sys \<Rightarrow> sys" where
  "on_failed now jobData err s =
     (case findById (notificationId jobData) (rows s) of
        None \<Rightarrow> s
      | Some notification \<Rightarrow>
          (case retryConfigs (job_channel jobData) of
             Undefined \<Rightarrow> s
           | Inherited \<Rightarrow>
               updateNotificationStatus now (notificationId jobData) ''failed''
                 (''Max retries (undefined) exceeded. Last error: '' @ err) s
           | Own retryConfig \<Rightarrow>
               let currentRetries = retry_count notification in
               if currentRetries < maxRetries retryConfig
               then scheduleRetry now jobData (currentRetries + 1) err s
               else updateNotificationStatus now (notificationId jobData) ''failed''
                      (''Max retries ('' @ toString_nat (maxRetries retryConfig)
                       @ '') exceeded. Last error: '' @ err) s))"

text \<open>
  Modelled from the spec: what the broker keeps of a job that failed. The queue is
  configured with \<^verbatim>\<open>removeOnFail: 50\<close>, the last 50 failed jobs.
\<close>

definition job_failed :: "BrokerJob \<Rightarrow> sys \<Rightarrow> sys" where
  "job_failed j s =
     s\<lparr>failed_jobs := drop (length (failed_jobs s @ [j]) - 50) (failed_jobs s @ [j])\<rparr>"

text \<open>
  One job through a worker: the broker hands the job out, the processor runs, and the
  queue is configured with \<^verbatim>\<open>attempts: 1\<close>, so the job then completes or fails for
  good and the matching handler runs. For a job whose row does not exist the updates
  match no row and the log rows violate their foreign key: the job fails and the handler
  returns at once. The broker hands a job to one worker; a job that stalls and is handed
  out again is not modelled.
\<close>

definition worker_run :: "env \<Rightarrow> timestamp \<Rightarrow> BrokerJob \<Rightarrow> provider_reply \<Rightarrow> sys \<Rightarrow> sys" where
  "worker_run e now j reply s =
     (let s0 = s\<lparr>queue := filter (\<lambda>x. jobId x \<noteq> jobId j) (queue s)\<rparr> in
      case findById (notificationId (job_data j)) (rows s) of
        None \<Rightarrow> job_failed j s0
      | Some n \<Rightarrow>
          (case processNotification e now (job_data j) reply s0 of
             (None, s1) \<Rightarrow> on_completed now (job_data j) s1
           | (Some err, s1) \<Rightarrow> on_failed now (job_data j) err (job_failed j s1)))"

text \<open>
  \<^verbatim>\<open>NotificationService.retryNotification\<close>, behind POST /api/notifications/:id/retry,
  from the parsed id on: the job it builds from the row, its first half up to
  \<^verbatim>\<open>queue.add\<close>, and the function itself when nothing comes in between.
\<close>

definition job_of_row :: "Notification \<Rightarrow> NotificationJob" where
  "job_of_row notification =
     \<lparr>notificationId = nid notification, job_channel = channel notification,
      job_recipient = recipient notification, job_subject = subject notification,
      job_content = content notification, job_userId = user_id notification,
      job_priority = (case priority notification of None \<Rightarrow> ''normal''
                      | Some p \<Rightarrow> if p = [] then ''normal'' else p)\<rparr>"

definition retry_begin :: "nat \<Rightarrow> sys \<Rightarrow> sys" where
  "retry_begin i s =
     (case findById i (rows s) of
        None \<Rightarrow> s
      | Some notification \<Rightarrow> leave_pending (RetryQueued i) (enqueue (job_of_row notification) s))"

definition retryNotification :: "timestamp \<Rightarrow> nat \<Rightarrow> sys \<Rightarrow> (js_error + unit) \<times> sys" where
  "retryNotification now i s =
     (case findById i (rows s) of
        None \<Rightarrow> (Inl ''Notification not found'', s)
      | Some notification \<Rightarrow>
          let s1 = queueNotification now (job_of_row notification) s
          in (Inr (), s1\<lparr>logs := logs s1 @
                [log_entry now i ''retry_queued'' ''Notification manually queued for retry'']\<rparr>))"

text \<open>
  Modelled from the spec: \<^verbatim>\<open>retryFailedJobs\<close>, behind POST /api/queue/retry-failed,
  calls the retry primitive of the broker on every job the broker keeps as failed, which
  puts the job back among the waiting ones (section 4.4, admin surface operations).
\<close>

definition retryFailedJobs :: "sys \<Rightarrow> sys" where
  "retryFailedJobs s = s\<lparr>queue := queue s @ failed_jobs s, failed_jobs := []\<rparr>"

text \<open>
  The interval of the standalone worker (\<^verbatim>\<open>worker.ts\<close>, every 30000 ms) and the
  handler of the \<^verbatim>\<open>stalled\<close> event: each returns the lines it writes to the console and
  the state it leaves. \<^verbatim>\<open>healthCheck\<close> reads the broker's counters and the status of the
  connection; it reports unhealthy when reading the counters throws.
\<close>

definition healthCheck :: "bool \<Rightarrow> string \<Rightarrow> sys \<Rightarrow> bool" where
  "healthCheck statsRead redisStatus s = (statsRead \<and> redisStatus = ''ready'')"

definition health_interval :: "bool \<Rightarrow> string \<Rightarrow> sys \<Rightarrow> string list \<times> sys" where
  "health_interval statsRead redisStatus s =
     (if \<not> healthCheck statsRead redisStatus s then ([''Worker health check failed:''], s) else ([], s))"

definition on_stalled :: "string \<Rightarrow> sys \<Rightarrow> string list \<times> sys" where
  "on_stalled jid s = ([''[v0] Job '' @ jid @ '' stalled''], s)"

section \<open>Submission\<close>

text \<open>
  The request is the JSON body as the route hands it to the service, which reads its
  fields by name. A field that is absent reads as undefined (\<open>None\<close>).
\<close>

definition get_field :: "string \<Rightarrow> json \<Rightarrow> json option" where
  "get_field k v = (case v of JObj fs \<Rightarrow> map_of fs k | _ \<Rightarrow> None)"

definition sql_text :: "env \<Rightarrow> json option \<Rightarrow> string option" where
  \<comment> \<open>the value as a text parameter of a statement; undefined and null are NULL\<close>
  "sql_text e v =
     (case v of None \<Rightarrow> None | Some JNull \<Rightarrow> None | Some (JStr t) \<Rightarrow> Some t
      | Some j \<Rightarrow> Some (pg_text e j))"

definition falsy :: "json option \<Rightarrow> bool" where
  "falsy v = (v = None \<or> v = Some JNull \<or> v = Some (JBool False) \<or> v = Some (JNum 0) \<or> v = Some (JStr []))"

text \<open>
  The values \<^verbatim>\<open>sendNotification\<close> reads from the request. The user id is read from
  a \<open>userId\<close> that is a string or a number:
  \<^verbatim>\<open>request.userId ? Number.parseInt(request.userId) : undefined\<close>. The time is
  \<^verbatim>\<open>request.scheduledAt || new Date()\<close>, none when the database rejects the value.
  The priority is \<^verbatim>\<open>request.priority || "normal"\<close>, on which \<^verbatim>\<open>getPriority\<close>
  calls \<^verbatim>\<open>toLowerCase\<close>: that throws on a value that is not a string.
\<close>

definition request_user_id :: "env \<Rightarrow> json \<Rightarrow> int option" where
  "request_user_id e request =
     (case get_field ''userId'' request of
        Some (JStr u) \<Rightarrow> if u = [] then None else parseInt e u
      | Some (JNum n) \<Rightarrow> if n = 0 then None else Some n
      | _ \<Rightarrow> None)"

definition request_scheduled_at :: "env \<Rightarrow> json \<Rightarrow> timestamp option option" where
  "request_scheduled_at e request =
     (case get_field ''scheduledAt'' request of
        None \<Rightarrow> Some None
      | Some j \<Rightarrow>
          if falsy (Some j) then Some None
          else (case pg_timestamp e j of None \<Rightarrow> None | Some t \<Rightarrow> Some (Some t)))"

definition request_priority :: "json \<Rightarrow> js_error + string" where
  "request_priority request =
     (case get_field ''priority'' request of
        Some (JStr p) \<Rightarrow> Inr (if p = [] then ''normal'' else p)
      | pr \<Rightarrow> if falsy pr then Inr ''normal''
              else Inl ''TypeError: priority.toLowerCase is not a function'')"

text \<open>
  The parameters of the INSERT for one channel entry: none when the database rejects
  them, which it does when channel, recipient or content is NULL or the time does not
  parse.
\<close>

definition insert_values ::
  "env \<Rightarrow> json \<Rightarrow> json \<Rightarrow> (string \<times> string \<times> string \<times> timestamp option) option" where
  "insert_values e request ch =
     (case sql_text e (get_field ''type'' ch) of
        None \<Rightarrow> None
      | Some ty \<Rightarrow>
          (case sql_text e (get_field ''recipient'' ch) of
             None \<Rightarrow> None
           | Some rcp \<Rightarrow>
               (case sql_text e (get_field ''message'' request) of
                  None \<Rightarrow> None
                | Some cont \<Rightarrow>
                    (case request_scheduled_at e request of
                       None \<Rightarrow> None
                     | Some sch \<Rightarrow> Some (ty, rcp, cont, sch)))))"

text \<open>
  One round of the loop of \<^verbatim>\<open>NotificationService.sendNotification\<close>: the INSERT with
  \<^verbatim>\<open>status: "pending"\<close> and \<^verbatim>\<open>max_retries: 3\<close>, the log row \<^verbatim>\<open>created\<close>, and
  \<^verbatim>\<open>queueNotification\<close>. Reading a property of a null entry throws. The flag says
  whether the status write of \<^verbatim>\<open>queueNotification\<close> is left in flight or made at once.
  The job carries the channel type and the recipient of the request; the model gives it
  the text the row has, which is the same for the strings the interface asks for.
\<close>

definition created :: "timestamp \<Rightarrow> Notification \<Rightarrow> sys \<Rightarrow> sys" where
  "created now notification s =
     s\<lparr>rows := rows s @ [notification], next_id := next_id s + 1,
       logs := logs s @ [log_entry now (nid notification) ''created''
                           ''Notification created and queued'']\<rparr>"

definition send_one ::
  "bool \<Rightarrow> env \<Rightarrow> timestamp \<Rightarrow> json \<Rightarrow> json \<Rightarrow> sys \<Rightarrow> (js_error + Notification) \<times> sys" where
  "send_one deferred e now request ch s =
     (if ch = JNull then (Inl ''TypeError: Cannot read properties of null'', s)
      else case insert_values e request ch of
        None \<Rightarrow> (Inl ''error: value rejected by the database'', s)
      | Some (ty, rcp, cont, sch) \<Rightarrow>
          let notification = create (next_id s) now (request_user_id e request) ty rcp
                               (sql_text e (get_field ''subject'' request)) cont ''pending'' 3 sch;
              s1 = created now notification s
          in case request_priority request of
               Inl err \<Rightarrow> (Inl err, s1)
             | Inr p \<Rightarrow>
                 let jobData = \<lparr>notificationId = nid notification, job_channel = ty,
                                job_recipient = rcp,
                                job_subject = sql_text e (get_field ''subject'' request),
                                job_content = cont, job_userId = user_id notification,
                                job_priority = p\<rparr>
                 in (Inr notification,
                     if deferred then leave_pending (Queued (nid notification)) (enqueue jobData s1)
                     else queueNotification now jobData s1))"

fun send_loop ::
  "bool \<Rightarrow> env \<Rightarrow> timestamp \<Rightarrow> json \<Rightarrow> json list \<Rightarrow> Notification list \<Rightarrow> sys \<Rightarrow>
   (js_error + Notification list) \<times> sys" where
  "send_loop deferred e now request [] acc s = (Inr acc, s)"
| "send_loop deferred e now request (ch # chs) acc s =
     (case send_one deferred e now request ch s of
        (Inl err, s') \<Rightarrow> (Inl err, s')
      | (Inr n, s') \<Rightarrow> send_loop deferred e now request chs (acc @ [n]) s')"

text \<open>
  \<^verbatim>\<open>sendNotification\<close>: the loop over \<^verbatim>\<open>request.channels\<close> (an array, the route has
  checked it), then the status built from \<^verbatim>\<open>notifications[0]\<close>, which throws when no
  row was created. \<open>sendNotification\<close> is the call that nothing interrupts; \<open>submit\<close>
  is the same call with its status writes left in flight.
\<close>

definition send_all ::
  "bool \<Rightarrow> env \<Rightarrow> timestamp \<Rightarrow> json \<Rightarrow> sys \<Rightarrow> (js_error + NotificationStatus) \<times> sys" where
  "send_all deferred e now request s =
     (case get_field ''channels'' request of
        Some (JArr chs) \<Rightarrow>
          (case send_loop deferred e now request chs [] s of
             (Inl err, s') \<Rightarrow> (Inl err, s')
           | (Inr [], s') \<Rightarrow> (Inl ''TypeError: Cannot read properties of undefined'', s')
           | (Inr (n # ns), s') \<Rightarrow>
               (Inr \<lparr>ns_id = toString_nat (nid n),
                     ns_userId = sql_text e (get_field ''userId'' request),
                     ns_status = ''queued'',
                     ns_channels = map (\<lambda>x. (channel x, ''queued'')) (n # ns),
                     ns_createdAt = created_at n, ns_updatedAt = updated_at n,
                     ns_scheduledAt = (if falsy (get_field ''scheduledAt'' request) then None
                                       else Some (scheduled_at n)),
                     ns_retryCount = 0\<rparr>, s'))
      | _ \<Rightarrow> (Inl ''TypeError: request.channels is not iterable'', s))"

definition sendNotification ::
  "env \<Rightarrow> timestamp \<Rightarrow> json \<Rightarrow> sys \<Rightarrow> (js_error + NotificationStatus) \<times> sys" where
  "sendNotification e now request s = send_all False e now request s"

definition submit :: "env \<Rightarrow> timestamp \<Rightarrow> json \<Rightarrow> sys \<Rightarrow> sys" where
  "submit e now request s = snd (send_all True e now request s)"

section \<open>The route POST /api/notifications/send\<close>

text \<open>
  The validators are those of the library express-validator, which is not code of this
  repository; they are modelled by what the library documents. \<^verbatim>\<open>isString\<close> and
  \<^verbatim>\<open>isArray\<close> test the type of the whole value. \<^verbatim>\<open>notEmpty\<close> and \<^verbatim>\<open>isIn\<close> are
  standard validators: the library applies them to the string it makes of the value,
  and to each element in turn when the value is an array. \<^verbatim>\<open>optional\<close> skips the
  chain when the value is undefined.
\<close>

fun join_comma :: "string list \<Rightarrow> string" where
  "join_comma [] = []"
| "join_comma [x] = x"
| "join_comma (x # y # ys) = x @ '','' @ join_comma (y # ys)"

fun js_str :: "json \<Rightarrow> string" where
  "js_str JNull = []"
| "js_str (JBool b) = (if b then ''true'' else ''false'')"
| "js_str (JNum n) = toString_int n"
| "js_str (JStr t) = t"
| "js_str (JArr xs) = join_comma (map js_str xs)"
| "js_str (JObj fs) = ''[object Object]''"












section \<open>Executions\<close>

text \<open>
  The operations that change the state, one event each. A submission and a manual retry
  create rows and jobs and leave their status writes in flight; \<open>LateWrite\<close> makes one of
  these writes, at any later moment, so that jobs may go through the workers in
  between. \<open>Work\<close> is one job through a worker (the job is named by its id; the
  provider's answer comes with the event). Its writes stay together: the status of a row
  is overwritten whole, and apart from the admin operations the only other writer of the
  row is the write in flight, so that placing that write before or after the job gives
  every status the row can be left with. \<open>RetryFailed\<close> is the retry of all failed jobs,
  \<open>Probe\<close> the interval of the standalone worker, \<open>Stalled\<close> the stalled event.
\<close>

datatype event = Submit timestamp json | LateWrite timestamp pending_write
  | Work timestamp string provider_reply | AdminRetry timestamp nat | RetryFailed
  | Probe bool string | Stalled string

definition step :: "env \<Rightarrow> event \<Rightarrow> sys \<Rightarrow> sys" where
  "step e ev s =
     (case ev of
        Submit now body \<Rightarrow> submit e now body s
      | LateWrite now w \<Rightarrow> late_write now w s
      | Work now jid reply \<Rightarrow>
          (case find (\<lambda>j. jobId j = jid) (queue s) of
             None \<Rightarrow> s
           | Some j \<Rightarrow> worker_run e now j reply s)
      | AdminRetry now i \<Rightarrow> retry_begin i s
      | RetryFailed \<Rightarrow> retryFailedJobs s
      | Probe statsRead redisStatus \<Rightarrow> snd (health_interval statsRead redisStatus s)
      | Stalled jid \<Rightarrow> snd (on_stalled jid s))"

fun run :: "env \<Rightarrow> event list \<Rightarrow> sys \<Rightarrow> sys" where
  "run e [] s = s"
| "run e (ev # evs) s = run e evs (step e ev s)"

fun is_admin :: "event \<Rightarrow> bool" where
  "is_admin (AdminRetry now i) = True"
| "is_admin RetryFailed = True"
| "is_admin ev = False"

fun is_probe :: "event \<Rightarrow> bool" where
  "is_probe (Probe statsRead redisStatus) = True"
| "is_probe (Stalled jid) = True"
| "is_probe ev = False"

text \<open>
  An environment for the concrete runs: the SMS, push and Telegram adapters configured,
  decimal strings read as numbers, a number read as a timestamp.
\<close>

definition parseInt_decimal :: "string \<Rightarrow> int option" where
  "parseInt_decimal t =
     (let ds = takeWhile isDigit t in
      if ds = [] then None else Some (foldl (\<lambda>a c. 10 * a + (int (of_char c) - 48)) 0 ds))"

definition test_env :: env where
  "test_env =
     \<lparr>smsConfigured = True, pushConfigured = True,
      telegramToken = ''token'', parseInt = parseInt_decimal, pg_text = js_str,
      pg_timestamp = (\<lambda>j. case j of JNum t \<Rightarrow> Some t | _ \<Rightarrow> None)\<rparr>"

section \<open>Concrete requests\<close>

definition email_body :: json where
  "email_body = JObj [(''userId'', JStr ''1''), (''subject'', JStr ''Hi''),
     (''message'', JObj [(''title'', JStr ''Hi''), (''body'', JStr ''Hello'')]),
     (''channels'', JArr [JObj [(''type'', JStr ''email''), (''recipient'', JStr ''a@b.c'')]])]"

definition sms_body :: json where
  "sms_body = JObj [(''userId'', JStr ''1''), (''subject'', JStr ''Hi''),
     (''message'', JObj [(''title'', JStr ''Hi''), (''body'', JStr ''Hello'')]),
     (''channels'', JArr [JObj [(''type'', JStr ''sms''), (''recipient'', JStr ''5551234567'')]])]"

definition slack_body :: json where
  "slack_body = JObj [(''userId'', JStr ''1''), (''subject'', JStr ''Hi''),
     (''message'', JObj [(''title'', JStr ''Hi''), (''body'', JStr ''Hello'')]),
     (''channels'', JArr [JObj [(''type'', JStr ''slack''),
                                (''recipient'', JStr ''https://hooks.slack.com/services/T0/B0/X0'')]])]"

definition fax_body :: json where
  "fax_body = JObj [(''userId'', JStr ''1''), (''subject'', JStr ''Hi''),
     (''message'', JObj [(''title'', JStr ''Hi''), (''body'', JStr ''Hello'')]),
     (''channels'', JArr [JObj [(''type'', JStr ''fax''), (''recipient'', JStr ''5551234567'')]])]"


definition row_of_user :: "nat \<Rightarrow> int \<Rightarrow> timestamp \<Rightarrow> Notification" where
  "row_of_user i u t = create i t (Some u) ''email'' ''a@b.c'' (Some ''Hi'') ''Hello'' ''sent'' 3 None"

section \<open>Notions the properties are stated with\<close>

definition status_of :: "nat \<Rightarrow> sys \<Rightarrow> string option" where
  "status_of i s = map_option status (findById i (rows s))"

definition terminal :: "string \<Rightarrow> bool" where
  "terminal st = (st = ''sent'' \<or> st = ''failed'')"

definition pending_for :: "nat \<Rightarrow> BrokerJob list \<Rightarrow> BrokerJob list" where
  "pending_for i q = filter (\<lambda>j. notificationId (job_data j) = i) q"

text \<open>
  The invariant of the executions without admin operations: keys, jobs and writes in
  flight stay below the next key, a row has at most one job pending, and a row that is
  sent or failed has none.
\<close>

definition dispatch_inv :: "sys \<Rightarrow> bool" where
  "dispatch_inv s =
     ((\<forall>r \<in> set (rows s). nid r < next_id s) \<and>
      (\<forall>j \<in> set (queue s). notificationId (job_data j) < next_id s) \<and>
      (\<forall>w \<in> set (in_flight s). write_target w < next_id s) \<and>
      (\<forall>i. length (pending_for i (queue s)) \<le> 1) \<and>
      (\<forall>r \<in> set (rows s). terminal (status r) \<longrightarrow> pending_for (nid r) (queue s) = []))"

definition write_pending :: "nat \<Rightarrow> sys \<Rightarrow> bool" where
  "write_pending i s = (i \<in> set (map write_target (in_flight s)))"

definition keeps_terminal :: "sys \<Rightarrow> sys \<Rightarrow> bool" where
  "keeps_terminal s s' =
     (\<forall>k st. status_of k s = Some st \<and> terminal st \<and> \<not> write_pending k s \<longrightarrow>
        status_of k s' = Some st \<and> \<not> write_pending k s')"

definition no_stall_recovered :: "sys \<Rightarrow> bool" where
  "no_stall_recovered s = (filter (\<lambda>l. log_status l = ''stall_recovered'') (logs s) = [])"


text \<open>
  What one round of the submission loop does to the state: nothing, or one new row with
  the next key, not yet sent or failed, and at most one new job and one write in flight,
  both for that row.
\<close>

definition appended :: "sys \<Rightarrow> sys \<Rightarrow> bool" where
  "appended s s' =
     (s' = s \<or>
      (\<exists>r. nid r = next_id s \<and> \<not> terminal (status r) \<and> rows s' = rows s @ [r] \<and>
           next_id s' = Suc (next_id s) \<and>
           (in_flight s' = in_flight s \<or> in_flight s' = in_flight s @ [Queued (next_id s)]) \<and>
           (queue s' = queue s \<or>
            (\<exists>j. notificationId (job_data j) = next_id s \<and> queue s' = queue_add j (queue s)))))"

text \<open>A row that exists and has no job in the broker.\<close>

definition idle :: "nat \<Rightarrow> sys \<Rightarrow> bool" where
  "idle i s = (i < next_id s \<and> pending_for i (queue s) = [])"
section \<open>Phone number formatting\<close>

lemma not_isDigit_plus: "\<not> isDigit CHR ''+''"
  by (simp add: isDigit_def)

lemma isDigit_one: "isDigit CHR ''1''"
  by (simp add: isDigit_def)

text \<open>
  Claim C9. With the digits of the input written \<open>filter isDigit x\<close>: an input with
  exactly 10 digits becomes \<open>+1\<close> followed by the digits; one with more than 10 digits
  that does not start with \<open>+\<close> becomes \<open>+\<close> followed by the digits; any other input
  is returned unchanged. Formatting is idempotent.
\<close>

theorem formatPhoneNumber_normalizes:
  "formatPhoneNumber x =
     (if length (filter isDigit x) = 10 then ''+1'' @ filter isDigit x
      else if length (filter isDigit x) > 10 \<and> \<not> startsWith x ''+'' then ''+'' @ filter isDigit x
      else x)
   \<and> formatPhoneNumber (formatPhoneNumber x) = formatPhoneNumber x"
proof
  show "formatPhoneNumber x =
     (if length (filter isDigit x) = 10 then ''+1'' @ filter isDigit x
      else if length (filter isDigit x) > 10 \<and> \<not> startsWith x ''+'' then ''+'' @ filter isDigit x
      else x)"
    by (simp add: formatPhoneNumber_def Let_def)
next
  let ?d = "filter isDigit x"
  consider (ten) "length ?d = 10"
    | (long) "length ?d \<noteq> 10" "length ?d > 10" "\<not> startsWith x ''+''"
    | (same) "length ?d \<noteq> 10" "\<not> (length ?d > 10 \<and> \<not> startsWith x ''+'')"
    by blast
  then show "formatPhoneNumber (formatPhoneNumber x) = formatPhoneNumber x"
  proof cases
    case ten
    then have r: "formatPhoneNumber x = ''+1'' @ ?d"
      by (simp add: formatPhoneNumber_def Let_def)
    have "filter isDigit (''+1'' @ ?d) = CHR ''1'' # ?d"
      by (simp add: not_isDigit_plus isDigit_one)
    then have "formatPhoneNumber (''+1'' @ ?d) = ''+1'' @ ?d"
      using ten by (simp add: formatPhoneNumber_def Let_def startsWith_def)
    with r show ?thesis by simp
  next
    case long
    then have r: "formatPhoneNumber x = ''+'' @ ?d"
      by (simp add: formatPhoneNumber_def Let_def)
    have "filter isDigit (''+'' @ ?d) = ?d"
      by (simp add: not_isDigit_plus)
    then have "formatPhoneNumber (''+'' @ ?d) = ''+'' @ ?d"
      using long by (simp add: formatPhoneNumber_def Let_def startsWith_def)
    with r show ?thesis by simp
  next
    case same
    then have "formatPhoneNumber x = x"
      by (auto simp add: formatPhoneNumber_def Let_def)
    then show ?thesis by simp
  qed
qed

theorem formatPhoneNumber_normalizes_witness:
  "formatPhoneNumber ''(555) 123-4567'' = ''+15551234567''
   \<and> formatPhoneNumber ''44 20 7946 0958'' = ''+442079460958''
   \<and> formatPhoneNumber ''+44 20 7946 0958'' = ''+44 20 7946 0958''
   \<and> formatPhoneNumber ''12345'' = ''12345''
   \<and> formatPhoneNumber (formatPhoneNumber ''(555) 123-4567'') = formatPhoneNumber ''(555) 123-4567''"
  using formatPhoneNumber_normalizes [of "''(555) 123-4567''"]
    formatPhoneNumber_normalizes [of "''44 20 7946 0958''"]
    formatPhoneNumber_normalizes [of "''+44 20 7946 0958''"]
    formatPhoneNumber_normalizes [of "''12345''"]
  by (simp add: formatPhoneNumber_def isDigit_def startsWith_def)

section \<open>Evaluating the model\<close>

lemma toString_nat_small: "n < 10 \<Longrightarrow> toString_nat n = [''0123456789'' ! n]"
  by (simp add: toString_nat.simps)

lemma toString_int_small: "toString_int 7 = ''7''" "toString_int 8 = ''8''"
  by (simp_all add: toString_int_def toString_nat_small)

lemma getPriority_normal: "getPriority ''normal'' = 0"
  by (simp add: getPriority_def toLowerCase_def)

lemma toLowerCase_names: "toLowerCase ''email'' = ''email''" "toLowerCase ''sms'' = ''sms''"
  "toLowerCase ''slack'' = ''slack''" "toLowerCase ''fax'' = ''fax''"
  by (simp_all add: toLowerCase_def)

lemma retryConfigs_values:
  "retryConfigs ''email'' = Own \<lparr>maxRetries = 5, backoffType = Exponential,
     backoffDelay = 2000, maxBackoffDelay = Some 300000\<rparr>"
  "retryConfigs ''sms'' = Own \<lparr>maxRetries = 3, backoffType = Exponential,
     backoffDelay = 5000, maxBackoffDelay = Some 600000\<rparr>"
  "retryConfigs ''slack'' = Own \<lparr>maxRetries = 3, backoffType = Fixed,
     backoffDelay = 10000, maxBackoffDelay = None\<rparr>"
  "retryConfigs ''fax'' = Undefined"
  "retryConfigs ''constructor'' = Inherited"
  by (simp_all add: retryConfigs_def retryConfigs_table_def object_prototype_names_def)

lemmas eval_defs = init_def step_def submit_def send_all_def sendNotification_def send_one_def
  insert_values_def created_def request_user_id_def request_scheduled_at_def request_priority_def
  get_field_def sql_text_def falsy_def test_env_def parseInt_decimal_def isDigit_def create_def
  enqueue_def leave_pending_def late_write_def mark_queued_def queueNotification_def queue_add_def
  getPriority_normal toLowerCase_names retryConfigs_values toString_nat_small
  updateNotificationStatus_def updateStatus_def updateLastProcessed_def sql_update_def
  log_entry_def Let_def worker_run_def job_failed_def processNotification_def call_adapter_def
  emailService_send_def emailService_isConfigured_def smsService_send_def slackService_send_def
  on_completed_def on_failed_def scheduleRetry_def retry_job_def retryDelay_def
  incrementRetryCount_def findById_def retry_begin_def job_of_row_def retryFailedJobs_def
  health_interval_def healthCheck_def on_stalled_def

section \<open>Retry count and the cap of the row\<close>

text \<open>
  Claim C2 says that \<open>retry_count\<close> never exceeds the \<open>max_retries\<close> of the row. A
  submission for the email channel stores \<open>max_retries = 3\<close>, while the handler of failed
  jobs compares with the 5 of the email policy: after four failed deliveries the row has
  \<open>retry_count = 4\<close>.
\<close>

theorem retry_count_exceeds_max_retries:
  "map (\<lambda>r. (channel r, retry_count r, max_retries r))
     (rows (run test_env [Submit 0 email_body, LateWrite 0 (Queued 1),
                          Work 1 ''notification-1'' (Rejected Transient ''502''),
                          Work 2 ''retry-1-1'' (Rejected Transient ''502''),
                          Work 3 ''retry-1-2'' (Rejected Transient ''502''),
                          Work 4 ''retry-1-3'' (Rejected Transient ''502'')] init))
     = [(''email'', 4, 3)]"
  by (simp add: eval_defs email_body_def)

section \<open>The timestamp of sending\<close>

text \<open>
  Claim C3 says that \<^verbatim>\<open>update_status\<close> writes \<open>sent_at\<close> only for the status sent and
  only when it is null. On a row that was sent at time 1, \<^verbatim>\<open>updateStatus\<close> with the
  status queued sets \<open>sent_at\<close> to null, and with the status sent it overwrites it.
\<close>

theorem updateStatus_clears_sent_at:
  "map (\<lambda>r. (status r, sent_at r))
     (rows (run test_env [Submit 0 sms_body, LateWrite 0 (Queued 1),
                          Work 1 ''notification-1'' (Accepted ''m1'')] init))
     = [(''sent'', Some 1)]
   \<and> map (\<lambda>r. (status r, sent_at r))
     (updateStatus 2 1 ''queued''
        (rows (run test_env [Submit 0 sms_body, LateWrite 0 (Queued 1),
                             Work 1 ''notification-1'' (Accepted ''m1'')] init)))
     = [(''queued'', None)]
   \<and> map (\<lambda>r. (status r, sent_at r))
     (updateStatus 2 1 ''sent''
        (rows (run test_env [Submit 0 sms_body, LateWrite 0 (Queued 1),
                             Work 1 ''notification-1'' (Accepted ''m1'')] init)))
     = [(''sent'', Some 2)]"
  by (simp add: eval_defs sms_body_def)

section \<open>Adapters that swallow the rejection\<close>

text \<open>
  Claim C4 says that an adapter fails when the provider does not accept the message, so
  that a row is sent only after a successful send. The SMS adapter returns a result with
  \<open>success = False\<close> where the Slack and Telegram adapters throw; the job then completes
  and the row of a rejected SMS is marked sent.
\<close>

theorem sms_rejection_marks_sent:
  "smsService_send test_env (Rejected Permanent ''invalid phone'')
     = Inr \<lparr>success = False, messageId = None, error = Some ''invalid phone''\<rparr>
   \<and> slackService_send (Rejected Permanent ''Not Found'')
     = Inl ''Slack webhook failed: Not Found''
   \<and> telegramService_send test_env (Rejected Permanent ''chat not found'')
     = Inl ''Telegram API error: chat not found''
   \<and> map (\<lambda>r. (channel r, status r, retry_count r))
     (rows (run test_env [Submit 0 sms_body, LateWrite 0 (Queued 1),
                          Work 1 ''notification-1'' (Rejected Permanent ''invalid phone'')] init))
     = [(''sms'', ''sent'', 0)]"
  by (simp add: eval_defs sms_body_def telegramService_send_def)

section \<open>The notifications of a user\<close>

text \<open>
  Claim C10 says that \<^verbatim>\<open>getUserNotifications\<close> returns the rows of the user among the
  page cut out of all the rows, with their number as \<open>total\<close>. The statement that
  \<^verbatim>\<open>NotificationModel.list\<close> sends without a status is rejected by the database, so
  the call throws for every user, page and limit: here for user 7, page 1 and limit 2,
  where the page of all the rows holds one row of the user.
\<close>

theorem getUserNotifications_throws:
  "getUserNotifications userId page limit tbl = Inl UndeterminedParameter
   \<and> getUserNotifications ''7'' 1 2
        [row_of_user 1 7 10, row_of_user 2 7 20, row_of_user 3 8 30, row_of_user 4 7 40]
      = Inl UndeterminedParameter
   \<and> map nid (user_rows_of_page ''7'' 1 2
        [row_of_user 1 7 10, row_of_user 2 7 20, row_of_user 3 8 30, row_of_user 4 7 40]) = [4]"
  by (simp add: getUserNotifications_def list_n_def user_rows_of_page_def global_page_def
      belongs_to_def row_of_user_def create_def sort_key_def toString_int_small)

section \<open>What the operations do to rows and jobs\<close>

lemma findById_sql_update:
  assumes "\<And>r. nid (f r) = nid r"
  shows "findById i (sql_update k f tbl) = map_option (\<lambda>r. if nid r = k then f r else r) (findById i tbl)"
  using assms by (induction tbl) (auto simp add: findById_def sql_update_def)

lemma findById_nid: "findById i tbl = Some r \<Longrightarrow> nid r = i"
  by (induction tbl) (auto simp add: findById_def split: if_splits)

lemma findById_mem: "findById i tbl = Some r \<Longrightarrow> r \<in> set tbl"
  by (induction tbl) (auto simp add: findById_def split: if_splits)

lemma findById_append: "findById i tbl = Some r \<Longrightarrow> findById i (tbl @ ys) = Some r"
  by (induction tbl) (auto simp add: findById_def split: if_splits)

lemma rows_updateNotificationStatus:
  "rows (updateNotificationStatus now i st msg s) =
     sql_update i (\<lambda>r. r\<lparr>status := st, updated_at := now,
                         sent_at := (if st = ''sent'' then Some now else None),
                         last_processed_at := Some now\<rparr>) (rows s)"
  by (simp add: updateNotificationStatus_def updateStatus_def updateLastProcessed_def sql_update_def
      Let_def)

lemma rest_updateNotificationStatus [simp]:
  "queue (updateNotificationStatus now i st msg s) = queue s"
  "next_id (updateNotificationStatus now i st msg s) = next_id s"
  "in_flight (updateNotificationStatus now i st msg s) = in_flight s"
  "failed_jobs (updateNotificationStatus now i st msg s) = failed_jobs s"
  by (simp_all add: updateNotificationStatus_def)

lemma processNotification_effect:
  "rows (snd (processNotification e now jd reply s)) =
     rows (updateNotificationStatus now (notificationId jd) ''processing'' ''Processing notification'' s)"
  "queue (snd (processNotification e now jd reply s)) = queue s"
  "next_id (snd (processNotification e now jd reply s)) = next_id s"
  "fst (processNotification e now jd reply s) =
     (case call_adapter e (job_channel jd) reply of Inl msg \<Rightarrow> Some msg | Inr r \<Rightarrow> None)"
  "in_flight (snd (processNotification e now jd reply s)) = in_flight s"
  by (simp_all add: processNotification_def Let_def split: sum.splits)

lemma sql_update_twice:
  assumes "\<And>r. nid (f r) = nid r"
  shows "sql_update i g (sql_update i f tbl) = sql_update i (\<lambda>r. g (f r)) tbl"
  using assms by (simp add: sql_update_def)

lemma sql_update_same: "sql_update i (\<lambda>r. r) tbl = tbl"
  by (simp add: sql_update_def)

lemma sql_update_fresh: "\<forall>r \<in> set tbl. nid r \<noteq> i \<Longrightarrow> sql_update i f tbl = tbl"
  by (induction tbl) (auto simp add: sql_update_def)

lemma set_sql_update: "set (sql_update i g tbl) = (\<lambda>r. if nid r = i then g r else r) ` set tbl"
  by (simp add: sql_update_def)

lemma pending_for_filter: "pending_for k (filter P q) = filter P (pending_for k q)"
  by (induction q) (auto simp add: pending_for_def)

lemma pending_for_queue_add_other:
  "notificationId (job_data j) \<noteq> k \<Longrightarrow> pending_for k (queue_add j q) = pending_for k q"
  by (simp add: pending_for_def queue_add_def)

lemma pending_for_queue_add_length:
  "length (pending_for k (queue_add j q)) \<le> Suc (length (pending_for k q))"
  by (simp add: pending_for_def queue_add_def)

lemma mem_queue_add: "x \<in> set (queue_add j q) \<Longrightarrow> x = j \<or> x \<in> set q"
  by (auto simp add: queue_add_def split: if_splits)

lemma scheduleRetry_effect:
  assumes "retryConfigs (job_channel jd) = Own cfg"
  shows "queue (scheduleRetry now jd k msg s) = queue_add (retry_job jd k (retryDelay cfg k)) (queue s)"
    and "rows (scheduleRetry now jd k msg s) =
          sql_update (notificationId jd) (\<lambda>r. r\<lparr>retry_count := retry_count r + 1, updated_at := now\<rparr>) (rows s)"
    and "next_id (scheduleRetry now jd k msg s) = next_id s"
    and "in_flight (scheduleRetry now jd k msg s) = in_flight s"
  using assms by (simp_all add: scheduleRetry_def Let_def incrementRetryCount_def)

lemma on_failed_retry:
  assumes "findById (notificationId jd) (rows s) = Some n"
    and "retryConfigs (job_channel jd) = Own cfg" and "retry_count n < maxRetries cfg"
  shows "on_failed now jd msg s = scheduleRetry now jd (retry_count n + 1) msg s"
  using assms by (simp add: on_failed_def Let_def)

text \<open>The shape of what one job through a worker does.\<close>

lemma on_failed_shape:
  "\<exists>g. (\<forall>r. nid (g r) = nid r) \<and>
       rows (on_failed now jd msg s) = sql_update (notificationId jd) g (rows s) \<and>
       next_id (on_failed now jd msg s) = next_id s \<and>
       in_flight (on_failed now jd msg s) = in_flight s \<and>
       (queue (on_failed now jd msg s) = queue s \<or>
        ((\<forall>r. status (g r) = status r) \<and>
         (\<exists>rj. notificationId (job_data rj) = notificationId jd \<and>
               queue (on_failed now jd msg s) = queue_add rj (queue s))))"
proof (cases "findById (notificationId jd) (rows s)")
  case None
  then have "on_failed now jd msg s = s" by (simp add: on_failed_def)
  then show ?thesis
    by (intro exI [of _ "\<lambda>r. r"]) (simp add: sql_update_same)
next
  case (Some n)
  show ?thesis
  proof (cases "retryConfigs (job_channel jd)")
    case Undefined
    then have "on_failed now jd msg s = s" using Some by (simp add: on_failed_def)
    then show ?thesis
      by (intro exI [of _ "\<lambda>r. r"]) (simp add: sql_update_same)
  next
    case Inherited
    then have eq: "on_failed now jd msg s = updateNotificationStatus now (notificationId jd) ''failed''
          (''Max retries (undefined) exceeded. Last error: '' @ msg) s"
      using Some by (simp add: on_failed_def)
    show ?thesis
      unfolding eq
      by (intro exI [of _ "\<lambda>r. r\<lparr>status := ''failed'', updated_at := now,
                       sent_at := (if ''failed'' = ''sent'' then Some now else None),
                       last_processed_at := Some now\<rparr>"])
         (simp add: rows_updateNotificationStatus)
  next
    case (Own cfg)
    show ?thesis
    proof (cases "retry_count n < maxRetries cfg")
      case True
      have eq: "on_failed now jd msg s = scheduleRetry now jd (retry_count n + 1) msg s"
        using Some Own True by (rule on_failed_retry)
      let ?rj = "retry_job jd (retry_count n + 1) (retryDelay cfg (retry_count n + 1))"
      have d: "notificationId (job_data ?rj) = notificationId jd"
        by (simp add: retry_job_def)
      show ?thesis
        unfolding eq
        apply (intro exI [of _ "\<lambda>r. r\<lparr>retry_count := retry_count r + 1, updated_at := now\<rparr>"])
        using scheduleRetry_effect [OF Own, of now "retry_count n + 1" msg s] d by auto
    next
      case False
      then have eq: "on_failed now jd msg s = updateNotificationStatus now (notificationId jd) ''failed''
          (''Max retries ('' @ toString_nat (maxRetries cfg) @ '') exceeded. Last error: '' @ msg) s"
        using Own Some by (simp add: on_failed_def Let_def)
      show ?thesis
        unfolding eq
        by (intro exI [of _ "\<lambda>r. r\<lparr>status := ''failed'', updated_at := now,
                         sent_at := (if ''failed'' = ''sent'' then Some now else None),
                         last_processed_at := Some now\<rparr>"])
           (simp add: rows_updateNotificationStatus)
    qed
  qed
qed

lemma job_failed_fields [simp]:
  "rows (job_failed j s) = rows s" "queue (job_failed j s) = queue s"
  "next_id (job_failed j s) = next_id s" "in_flight (job_failed j s) = in_flight s"
  "logs (job_failed j s) = logs s"
  by (simp_all add: job_failed_def)

lemma worker_run_shape:
  "\<exists>g. (\<forall>r. nid (g r) = nid r) \<and>
       rows (worker_run e now j reply s) = sql_update (notificationId (job_data j)) g (rows s) \<and>
       next_id (worker_run e now j reply s) = next_id s \<and>
       in_flight (worker_run e now j reply s) = in_flight s \<and>
       (queue (worker_run e now j reply s) = filter (\<lambda>x. jobId x \<noteq> jobId j) (queue s) \<or>
        ((\<forall>r. \<not> terminal (status (g r))) \<and>
         (\<exists>rj. notificationId (job_data rj) = notificationId (job_data j) \<and>
               queue (worker_run e now j reply s) =
                 queue_add rj (filter (\<lambda>x. jobId x \<noteq> jobId j) (queue s)))))"
proof (cases "findById (notificationId (job_data j)) (rows s)")
  case None
  then have "worker_run e now j reply s =
      job_failed j (s\<lparr>queue := filter (\<lambda>x. jobId x \<noteq> jobId j) (queue s)\<rparr>)"
    by (simp add: worker_run_def Let_def)
  then show ?thesis
    by (intro exI [of _ "\<lambda>r. r"]) (simp add: sql_update_same)
next
  case (Some n)
  let ?i = "notificationId (job_data j)"
  let ?s0 = "s\<lparr>queue := filter (\<lambda>x. jobId x \<noteq> jobId j) (queue s)\<rparr>"
  let ?p = "\<lambda>r. r\<lparr>status := ''processing'', updated_at := now, sent_at := None,
                         last_processed_at := Some now\<rparr>"
  obtain res s1 where p: "processNotification e now (job_data j) reply ?s0 = (res, s1)"
    by (cases "processNotification e now (job_data j) reply ?s0") simp
  have r1: "rows s1 = sql_update ?i ?p (rows s)"
    and q1: "queue s1 = filter (\<lambda>x. jobId x \<noteq> jobId j) (queue s)"
    and n1: "next_id s1 = next_id s"
    and f1: "in_flight s1 = in_flight s"
    using processNotification_effect(1,2,3,5) [of e now "job_data j" reply ?s0] p
    by (simp_all add: rows_updateNotificationStatus)
  show ?thesis
  proof (cases res)
    case None
    then have w: "worker_run e now j reply s = on_completed now (job_data j) s1"
      using Some p by (simp add: worker_run_def Let_def)
    show ?thesis
      unfolding w
      by (intro exI [of _ "\<lambda>r. (?p r)\<lparr>status := ''sent'', updated_at := now,
                         sent_at := (if ''sent'' = ''sent'' then Some now else None),
                         last_processed_at := Some now\<rparr>"])
         (simp add: on_completed_def rows_updateNotificationStatus r1 q1 n1 f1 sql_update_twice)
  next
    case (Some msg)
    then have w: "worker_run e now j reply s = on_failed now (job_data j) msg (job_failed j s1)"
      using \<open>findById ?i (rows s) = Some n\<close> p by (simp add: worker_run_def Let_def)
    let ?s2 = "job_failed j s1"
    obtain g where g: "\<forall>r. nid (g r) = nid r"
      "rows (on_failed now (job_data j) msg ?s2) = sql_update ?i g (rows ?s2)"
      "next_id (on_failed now (job_data j) msg ?s2) = next_id ?s2"
      "in_flight (on_failed now (job_data j) msg ?s2) = in_flight ?s2"
      "queue (on_failed now (job_data j) msg ?s2) = queue ?s2 \<or>
        ((\<forall>r. status (g r) = status r) \<and>
         (\<exists>rj. notificationId (job_data rj) = ?i \<and>
               queue (on_failed now (job_data j) msg ?s2) = queue_add rj (queue ?s2)))"
      using on_failed_shape [of now "job_data j" msg ?s2] by blast
    have rr: "rows (worker_run e now j reply s) = sql_update ?i (\<lambda>r. g (?p r)) (rows s)"
      unfolding w g(2) by (simp add: r1 sql_update_twice)
    have t: "(\<forall>r. status (g r) = status r) \<Longrightarrow> (\<forall>r. \<not> terminal (status (g (?p r))))"
      by (simp add: terminal_def)
    show ?thesis
      apply (intro exI [of _ "\<lambda>r. g (?p r)"])
      using g(1,3,4,5) rr t unfolding w by (auto simp add: q1 n1 f1)
  qed
qed

lemma keeps_terminal_refl: "keeps_terminal s s"
  by (simp add: keeps_terminal_def)

lemma keeps_terminal_trans: "keeps_terminal s t \<Longrightarrow> keeps_terminal t u \<Longrightarrow> keeps_terminal s u"
  unfolding keeps_terminal_def by blast

lemma inv_worker_run:
  assumes inv: "dispatch_inv s" and j: "j \<in> set (queue s)"
  shows "dispatch_inv (worker_run e now j reply s) \<and> keeps_terminal s (worker_run e now j reply s)"
proof -
  let ?i = "notificationId (job_data j)"
  let ?s' = "worker_run e now j reply s"
  let ?qf = "filter (\<lambda>x. jobId x \<noteq> jobId j) (queue s)"
  have I1: "\<forall>r \<in> set (rows s). nid r < next_id s"
    and I2: "\<forall>x \<in> set (queue s). notificationId (job_data x) < next_id s"
    and I5: "\<forall>w \<in> set (in_flight s). write_target w < next_id s"
    and I3: "\<forall>k. length (pending_for k (queue s)) \<le> 1"
    and I4: "\<forall>r \<in> set (rows s). terminal (status r) \<longrightarrow> pending_for (nid r) (queue s) = []"
    using inv by (simp_all add: dispatch_inv_def)
  obtain g where g: "\<forall>r. nid (g r) = nid r"
    and rw: "rows ?s' = sql_update ?i g (rows s)"
    and nx: "next_id ?s' = next_id s"
    and fl: "in_flight ?s' = in_flight s"
    and qq: "queue ?s' = ?qf \<or>
        ((\<forall>r. \<not> terminal (status (g r))) \<and>
         (\<exists>rj. notificationId (job_data rj) = ?i \<and> queue ?s' = queue_add rj ?qf))"
    using worker_run_shape [of e now j reply s] by blast
  have pj: "j \<in> set (pending_for ?i (queue s))"
    using j by (simp add: pending_for_def)
  have "length (pending_for ?i (queue s)) \<le> 1" using I3 by blast
  with pj have "pending_for ?i (queue s) = [j]"
    by (cases "pending_for ?i (queue s)") auto
  then have pf: "pending_for ?i ?qf = []"
    by (simp add: pending_for_filter)
  have idj: "?i < next_id s" using I2 j by blast
  have other: "\<And>k. k \<noteq> ?i \<Longrightarrow> pending_for k (queue ?s') = pending_for k ?qf"
    using qq by (auto simp add: pending_for_queue_add_other)
  have own: "length (pending_for ?i (queue ?s')) \<le> 1"
    using qq pf pending_for_queue_add_length [of ?i _ ?qf] by auto
  have own': "(\<forall>r. \<not> terminal (status (g r))) \<or> pending_for ?i (queue ?s') = []"
    using qq pf by auto
  have ids: "\<forall>x \<in> set (queue ?s'). notificationId (job_data x) < next_id s"
  proof
    fix x assume x: "x \<in> set (queue ?s')"
    from qq show "notificationId (job_data x) < next_id s"
    proof
      assume "queue ?s' = ?qf"
      then show ?thesis using x I2 by simp
    next
      assume "(\<forall>r. \<not> terminal (status (g r))) \<and>
         (\<exists>rj. notificationId (job_data rj) = ?i \<and> queue ?s' = queue_add rj ?qf)"
      then obtain rj where rj: "notificationId (job_data rj) = ?i" "queue ?s' = queue_add rj ?qf"
        by blast
      then have "x = rj \<or> x \<in> set ?qf" using x mem_queue_add [of x rj ?qf] by simp
      then show ?thesis using rj(1) idj I2 by auto
    qed
  qed
  have sub: "\<And>k. length (pending_for k ?qf) \<le> length (pending_for k (queue s))"
    by (simp add: pending_for_filter)
  have J1: "\<forall>r \<in> set (rows ?s'). nid r < next_id ?s'"
    using I1 g by (auto simp add: rw nx set_sql_update)
  have J2: "\<forall>x \<in> set (queue ?s'). notificationId (job_data x) < next_id ?s'"
    using ids by (simp add: nx)
  have J5: "\<forall>w \<in> set (in_flight ?s'). write_target w < next_id ?s'"
    using I5 by (simp add: nx fl)
  have J3: "\<forall>k. length (pending_for k (queue ?s')) \<le> 1"
  proof
    fix k
    show "length (pending_for k (queue ?s')) \<le> 1"
    proof (cases "k = ?i")
      case True
      then show ?thesis using own by simp
    next
      case False
      then show ?thesis using other [of k] sub [of k] I3 le_trans by fastforce
    qed
  qed
  have J4: "\<forall>r \<in> set (rows ?s'). terminal (status r) \<longrightarrow> pending_for (nid r) (queue ?s') = []"
  proof (intro ballI impI)
    fix r' assume m: "r' \<in> set (rows ?s')" and t: "terminal (status r')"
    from m obtain r where r: "r \<in> set (rows s)" and r': "r' = (if nid r = ?i then g r else r)"
      by (auto simp add: rw set_sql_update)
    show "pending_for (nid r') (queue ?s') = []"
    proof (cases "nid r = ?i")
      case True
      then have "r' = g r" "nid r' = ?i" using r' g by simp_all
      then show ?thesis using own' t by auto
    next
      case False
      then have e: "r' = r" using r' by simp
      then have "pending_for (nid r) (queue s) = []" using I4 r t by blast
      then have "pending_for (nid r) ?qf = []" by (simp add: pending_for_filter)
      then show ?thesis using other [of "nid r"] False e by simp
    qed
  qed
  have K: "keeps_terminal s ?s'"
    unfolding keeps_terminal_def
  proof (intro allI impI)
    fix k st assume a: "status_of k s = Some st \<and> terminal st \<and> \<not> write_pending k s"
    then obtain r where f: "findById k (rows s) = Some r" and st: "status r = st"
      by (auto simp add: status_of_def)
    have nk: "nid r = k" using f by (rule findById_nid)
    have "r \<in> set (rows s)" using f by (rule findById_mem)
    then have "pending_for k (queue s) = []" using I4 a st nk by blast
    then have "k \<noteq> ?i" using pj by auto
    then have "findById k (rows ?s') = Some r"
      using f nk g by (simp add: rw findById_sql_update)
    then show "status_of k ?s' = Some st \<and> \<not> write_pending k ?s'"
      using st a by (simp add: status_of_def write_pending_def fl)
  qed
  show ?thesis using J1 J2 J3 J4 J5 K by (simp add: dispatch_inv_def)
qed

lemma inv_late_write:
  assumes inv: "dispatch_inv s"
  shows "dispatch_inv (late_write now w s) \<and> keeps_terminal s (late_write now w s)"
proof (cases "w \<in> set (in_flight s)")
  case False
  then show ?thesis using inv by (simp add: late_write_def keeps_terminal_refl)
next
  case True
  let ?i = "write_target w"
  let ?s' = "late_write now w s"
  let ?f = "\<lambda>r. r\<lparr>status := ''queued'', updated_at := now,
                         sent_at := (if ''queued'' = ''sent'' then Some now else None),
                         last_processed_at := Some now\<rparr>"
  have rw: "rows ?s' = sql_update ?i ?f (rows s)"
    and qu: "queue ?s' = queue s" and nx: "next_id ?s' = next_id s"
    and fl: "in_flight ?s' = remove1 w (in_flight s)"
    using True
    by (simp_all add: late_write_def mark_queued_def Let_def rows_updateNotificationStatus
        split: pending_write.splits)
  have I1: "\<forall>r \<in> set (rows s). nid r < next_id s"
    and I2: "\<forall>x \<in> set (queue s). notificationId (job_data x) < next_id s"
    and I5: "\<forall>w \<in> set (in_flight s). write_target w < next_id s"
    and I3: "\<forall>k. length (pending_for k (queue s)) \<le> 1"
    and I4: "\<forall>r \<in> set (rows s). terminal (status r) \<longrightarrow> pending_for (nid r) (queue s) = []"
    using inv by (simp_all add: dispatch_inv_def)
  have sub: "set (remove1 w (in_flight s)) \<subseteq> set (in_flight s)"
    by (rule set_remove1_subset)
  have J1: "\<forall>r \<in> set (rows ?s'). nid r < next_id ?s'"
    using I1 by (auto simp add: rw nx set_sql_update)
  have J5: "\<forall>x \<in> set (in_flight ?s'). write_target x < next_id ?s'"
    using I5 sub by (auto simp add: fl nx)
  have J4: "\<forall>r \<in> set (rows ?s'). terminal (status r) \<longrightarrow> pending_for (nid r) (queue ?s') = []"
    using I4 by (auto simp add: rw qu set_sql_update terminal_def)
  have K: "keeps_terminal s ?s'"
    unfolding keeps_terminal_def
  proof (intro allI impI)
    fix k st assume a: "status_of k s = Some st \<and> terminal st \<and> \<not> write_pending k s"
    then obtain r where f: "findById k (rows s) = Some r" and st: "status r = st"
      by (auto simp add: status_of_def)
    have nk: "nid r = k" using f by (rule findById_nid)
    have "k \<noteq> ?i" using a True by (auto simp add: write_pending_def)
    then have "findById k (rows ?s') = Some r"
      using f nk by (simp add: rw findById_sql_update)
    moreover have "\<not> write_pending k ?s'"
      using a sub by (auto simp add: write_pending_def fl)
    ultimately show "status_of k ?s' = Some st \<and> \<not> write_pending k ?s'"
      using st by (simp add: status_of_def)
  qed
  show ?thesis using J1 I2 I3 J4 J5 K by (simp add: dispatch_inv_def qu nx)
qed

lemma appended_refl: "appended s s"
  by (simp add: appended_def)

lemma appended_created:
  assumes "nid n = next_id s" and "status n = ''pending''"
  shows "appended s (created now n s)"
  unfolding appended_def using assms
  by (intro disjI2 exI [of _ n]) (simp add: terminal_def created_def)

lemma appended_enqueued:
  assumes n: "nid n = next_id s" and st: "status n = ''pending''"
    and jd: "notificationId jd = next_id s"
  shows "appended s (leave_pending (Queued (next_id s)) (enqueue jd (created now n s)))"
proof -
  let ?s' = "leave_pending (Queued (next_id s)) (enqueue jd (created now n s))"
  have q: "\<exists>j. notificationId (job_data j) = next_id s \<and> queue ?s' = queue_add j (queue s)"
    by (rule exI [of _ "\<lparr>jobId = ''notification-'' @ toString_nat (notificationId jd),
          job_name = ''notification-'' @ toString_nat (notificationId jd), job_data = jd,
          job_delay = 0, queue_priority = getPriority (job_priority jd)\<rparr>"])
       (simp add: leave_pending_def enqueue_def Let_def jd created_def)
  have r: "rows ?s' = rows s @ [n]" "next_id ?s' = Suc (next_id s)"
    "in_flight ?s' = in_flight s @ [Queued (next_id s)]"
    by (simp_all add: leave_pending_def enqueue_def Let_def created_def n)
  show ?thesis
    unfolding appended_def
    apply (intro disjI2 exI [of _ n])
    using r q n st by (simp add: terminal_def)
qed

lemma create_fields [simp]:
  "nid (create i now uid ch rcp subj cont st maxr sched) = i"
  "status (create i now uid ch rcp subj cont ''pending'' maxr sched) = ''pending''"
  by (simp_all add: create_def)

lemma send_one_shape: "appended s (snd (send_one True e now request ch s))"
  unfolding send_one_def Let_def
  by (simp add: appended_refl appended_created appended_enqueued
      split: option.split sum.split prod.split)

lemma inv_appended:
  assumes inv: "dispatch_inv s" and a: "appended s s'"
  shows "dispatch_inv s' \<and> keeps_terminal s s'"
proof (cases "s' = s")
  case True
  then show ?thesis using inv by (simp add: keeps_terminal_refl)
next
  case False
  have I1: "\<forall>r \<in> set (rows s). nid r < next_id s"
    and I2: "\<forall>x \<in> set (queue s). notificationId (job_data x) < next_id s"
    and I5: "\<forall>w \<in> set (in_flight s). write_target w < next_id s"
    and I3: "\<forall>k. length (pending_for k (queue s)) \<le> 1"
    and I4: "\<forall>r \<in> set (rows s). terminal (status r) \<longrightarrow> pending_for (nid r) (queue s) = []"
    using inv by (simp_all add: dispatch_inv_def)
  from a False obtain r where r: "nid r = next_id s" "\<not> terminal (status r)"
    and rw: "rows s' = rows s @ [r]" and nx: "next_id s' = Suc (next_id s)"
    and fl: "in_flight s' = in_flight s \<or> in_flight s' = in_flight s @ [Queued (next_id s)]"
    and qq: "queue s' = queue s \<or>
            (\<exists>j. notificationId (job_data j) = next_id s \<and> queue s' = queue_add j (queue s))"
    by (auto simp add: appended_def)
  have none: "pending_for (next_id s) (queue s) = []"
    using I2 by (auto simp add: pending_for_def filter_empty_conv)
  have other: "\<And>k. k \<noteq> next_id s \<Longrightarrow> pending_for k (queue s') = pending_for k (queue s)"
    using qq by (auto simp add: pending_for_queue_add_other)
  have own: "length (pending_for (next_id s) (queue s')) \<le> 1"
    using qq none pending_for_queue_add_length [of "next_id s" _ "queue s"] by auto
  have J1: "\<forall>r \<in> set (rows s'). nid r < next_id s'"
    using I1 r(1) by (auto simp add: rw nx less_Suc_eq)
  have J2: "\<forall>x \<in> set (queue s'). notificationId (job_data x) < next_id s'"
  proof
    fix x assume x: "x \<in> set (queue s')"
    from qq show "notificationId (job_data x) < next_id s'"
    proof
      assume "queue s' = queue s"
      then show ?thesis using x I2 by (auto simp add: nx less_Suc_eq)
    next
      assume "\<exists>j. notificationId (job_data j) = next_id s \<and> queue s' = queue_add j (queue s)"
      then obtain j where j: "notificationId (job_data j) = next_id s" "queue s' = queue_add j (queue s)"
        by blast
      then have "x = j \<or> x \<in> set (queue s)" using x mem_queue_add [of x j "queue s"] by simp
      then show ?thesis using j(1) I2 by (auto simp add: nx less_Suc_eq)
    qed
  qed
  have J5: "\<forall>w \<in> set (in_flight s'). write_target w < next_id s'"
    using fl I5 by (auto simp add: nx less_Suc_eq)
  have J3: "\<forall>k. length (pending_for k (queue s')) \<le> 1"
  proof
    fix k
    show "length (pending_for k (queue s')) \<le> 1"
      using own other [of k] I3 by (cases "k = next_id s") auto
  qed
  have J4: "\<forall>x \<in> set (rows s'). terminal (status x) \<longrightarrow> pending_for (nid x) (queue s') = []"
  proof (intro ballI impI)
    fix x assume m: "x \<in> set (rows s')" and t: "terminal (status x)"
    then have "x \<in> set (rows s)" using r(2) by (auto simp add: rw)
    then have "nid x \<noteq> next_id s" "pending_for (nid x) (queue s) = []"
      using I1 I4 t by auto
    then show "pending_for (nid x) (queue s') = []" using other by simp
  qed
  have K: "keeps_terminal s s'"
    unfolding keeps_terminal_def
  proof (intro allI impI)
    fix k st assume a: "status_of k s = Some st \<and> terminal st \<and> \<not> write_pending k s"
    then obtain x where f: "findById k (rows s) = Some x" and st: "status x = st"
      by (auto simp add: status_of_def)
    have "x \<in> set (rows s)" "nid x = k" using f findById_mem findById_nid by auto
    then have "k \<noteq> next_id s" using I1 by auto
    then have "\<not> write_pending k s'"
      using a fl by (auto simp add: write_pending_def)
    then show "status_of k s' = Some st \<and> \<not> write_pending k s'"
      using f st by (simp add: status_of_def rw findById_append)
  qed
  show ?thesis using J1 J2 J3 J4 J5 K by (simp add: dispatch_inv_def)
qed

lemma inv_send_loop:
  "dispatch_inv s \<Longrightarrow>
     dispatch_inv (snd (send_loop True e now request chs acc s)) \<and>
     keeps_terminal s (snd (send_loop True e now request chs acc s))"
proof (induction chs arbitrary: acc s)
  case Nil
  then show ?case by (simp add: keeps_terminal_refl)
next
  case (Cons ch chs)
  let ?s1 = "snd (send_one True e now request ch s)"
  have "appended s ?s1" by (rule send_one_shape)
  with Cons.prems have one: "dispatch_inv ?s1 \<and> keeps_terminal s ?s1" by (rule inv_appended)
  show ?case
  proof (cases "send_one True e now request ch s")
    case (Pair res s1)
    then have s1: "?s1 = s1" by simp
    show ?thesis
    proof (cases res)
      case (Inl err)
      then show ?thesis using Pair one s1 by simp
    next
      case (Inr n)
      then have "snd (send_loop True e now request (ch # chs) acc s) =
          snd (send_loop True e now request chs (acc @ [n]) s1)"
        using Pair by simp
      then show ?thesis
        using Cons.IH [of s1 "acc @ [n]"] one s1 keeps_terminal_trans by auto
    qed
  qed
qed

lemma submit_unfold:
  "submit e now request s =
     (case get_field ''channels'' request of
        Some (JArr chs) \<Rightarrow> snd (send_loop True e now request chs [] s)
      | _ \<Rightarrow> s)"
  by (simp add: submit_def send_all_def split: option.splits json.splits prod.splits sum.splits list.splits)

lemma inv_submit:
  assumes "dispatch_inv s"
  shows "dispatch_inv (submit e now request s) \<and> keeps_terminal s (submit e now request s)"
  unfolding submit_unfold
  using assms inv_send_loop [of s e now request _ "[]"]
  by (simp add: keeps_terminal_refl split: option.splits json.splits)

lemma inv_step:
  assumes "dispatch_inv s" and "\<not> is_admin ev"
  shows "dispatch_inv (step e ev s) \<and> keeps_terminal s (step e ev s)"
proof (cases ev)
  case (Submit now body)
  then show ?thesis using assms(1) inv_submit by (simp add: step_def)
next
  case (LateWrite now w)
  then show ?thesis using assms(1) inv_late_write by (simp add: step_def)
next
  case (Work now jid reply)
  show ?thesis
  proof (cases "find (\<lambda>j. jobId j = jid) (queue s)")
    case None
    then show ?thesis using Work assms(1) by (simp add: step_def keeps_terminal_refl)
  next
    case (Some j)
    then have "j \<in> set (queue s)" by (auto simp add: find_Some_iff)
    then show ?thesis
      using Work Some assms(1) inv_worker_run [of s j e now reply] by (simp add: step_def)
  qed
next
  case (AdminRetry now i)
  then show ?thesis using assms(2) by simp
next
  case RetryFailed
  then show ?thesis using assms(2) by simp
next
  case (Probe a b)
  then show ?thesis
    using assms(1) by (simp add: step_def health_interval_def keeps_terminal_refl)
next
  case (Stalled jid)
  then show ?thesis
    using assms(1) by (simp add: step_def on_stalled_def keeps_terminal_refl)
qed

lemma inv_run:
  "dispatch_inv s \<Longrightarrow> list_all (\<lambda>ev. \<not> is_admin ev) evs \<Longrightarrow>
     dispatch_inv (run e evs s) \<and> keeps_terminal s (run e evs s)"
proof (induction evs arbitrary: s)
  case Nil
  then show ?case by (simp add: keeps_terminal_refl)
next
  case (Cons ev evs)
  then have one: "dispatch_inv (step e ev s) \<and> keeps_terminal s (step e ev s)"
    using inv_step [of s ev e] by simp
  then show ?case
    using Cons.IH [of "step e ev s"] Cons.prems(2) keeps_terminal_trans by auto
qed

lemma run_append: "run e (evs @ evs') s = run e evs' (run e evs s)"
  by (induction evs arbitrary: s) simp_all

lemma dispatch_inv_init: "dispatch_inv init"
  by (simp add: dispatch_inv_def init_def pending_for_def)

section \<open>Failed deliveries\<close>

text \<open>
  Claim C1 as it is stated fails: the Slack webhook answers the request with 404, a
  Permanent error, the adapter throws, and the dispatcher schedules a retry instead of
  marking the row failed.
\<close>

theorem permanent_error_is_retried:
  "call_adapter test_env ''slack'' (Rejected Permanent ''Not Found'')
     = Inl ''Slack webhook failed: Not Found''
   \<and> map (\<lambda>r. (status r, retry_count r))
     (rows (run test_env [Submit 0 slack_body, LateWrite 0 (Queued 1),
                          Work 1 ''notification-1'' (Rejected Permanent ''Not Found'')] init))
     = [(''processing'', 1)]
   \<and> map (\<lambda>j. (jobId j, notificationId (job_data j), job_delay j))
     (queue (run test_env [Submit 0 slack_body, LateWrite 0 (Queued 1),
                           Work 1 ''notification-1'' (Rejected Permanent ''Not Found'')] init))
     = [(''retry-1-1'', 1, 10000)]"
  by (simp add: eval_defs slack_body_def)

text \<open>
  Claim C1, amended. When the adapter invocation of a job fails, whatever the class of
  the error, for every channel of the policy table and every retry count of the row: if
  the retry count has reached the \<open>maxRetries\<close> of the channel, the row goes to failed,
  its retry count stays, and no further job is added to the queue; otherwise the row
  stays in processing, its retry count grows by one and the retry job is handed to the
  broker with the delay of the policy.
\<close>

theorem failed_delivery_retried_up_to_policy:
  assumes row: "findById (notificationId (job_data j)) (rows s) = Some n"
    and cfg: "retryConfigs (job_channel (job_data j)) = Own cfg"
    and fails: "call_adapter e (job_channel (job_data j)) (Rejected c m) = Inl msg"
  shows "(retry_count n < maxRetries cfg \<longrightarrow>
            map_option (\<lambda>r. (status r, retry_count r))
              (findById (notificationId (job_data j)) (rows (worker_run e now j (Rejected c m) s)))
              = Some (''processing'', retry_count n + 1)
            \<and> queue (worker_run e now j (Rejected c m) s)
              = queue_add (retry_job (job_data j) (retry_count n + 1) (retryDelay cfg (retry_count n + 1)))
                  (filter (\<lambda>x. jobId x \<noteq> jobId j) (queue s)))
       \<and> (\<not> retry_count n < maxRetries cfg \<longrightarrow>
            map_option (\<lambda>r. (status r, retry_count r))
              (findById (notificationId (job_data j)) (rows (worker_run e now j (Rejected c m) s)))
              = Some (''failed'', retry_count n)
            \<and> queue (worker_run e now j (Rejected c m) s)
              = filter (\<lambda>x. jobId x \<noteq> jobId j) (queue s))"
proof -
  let ?i = "notificationId (job_data j)"
  let ?s0 = "s\<lparr>queue := filter (\<lambda>x. jobId x \<noteq> jobId j) (queue s)\<rparr>"
  obtain s1 where p: "processNotification e now (job_data j) (Rejected c m) ?s0 = (Some msg, s1)"
    using processNotification_effect(4) [of e now "job_data j" "Rejected c m" ?s0] fails
    by (cases "processNotification e now (job_data j) (Rejected c m) ?s0") simp
  let ?s2 = "job_failed j s1"
  have r1: "rows s1 = rows (updateNotificationStatus now ?i ''processing'' ''Processing notification'' ?s0)"
    and q1: "queue s1 = filter (\<lambda>x. jobId x \<noteq> jobId j) (queue s)"
    using processNotification_effect(1,2) [of e now "job_data j" "Rejected c m" ?s0] p by simp_all
  have w: "worker_run e now j (Rejected c m) s = on_failed now (job_data j) msg ?s2"
    using row p by (simp add: worker_run_def Let_def)
  have nidn: "nid n = ?i" using row by (rule findById_nid)
  have "findById ?i (rows s1) = Some (n\<lparr>status := ''processing'', updated_at := now,
                         sent_at := None, last_processed_at := Some now\<rparr>)"
    using row nidn by (simp add: r1 rows_updateNotificationStatus findById_sql_update)
  then have f1: "findById ?i (rows ?s2) = Some (n\<lparr>status := ''processing'', updated_at := now,
                         sent_at := None, last_processed_at := Some now\<rparr>)"
    by simp
  have q2: "queue ?s2 = filter (\<lambda>x. jobId x \<noteq> jobId j) (queue s)"
    using q1 by simp
  show ?thesis
  proof (cases "retry_count n < maxRetries cfg")
    case True
    then have "worker_run e now j (Rejected c m) s = scheduleRetry now (job_data j) (retry_count n + 1) msg ?s2"
      using w f1 cfg by (simp add: on_failed_def Let_def del: job_failed_fields)
    then show ?thesis
      using True f1 q2 nidn scheduleRetry_effect(1,2) [OF cfg, of now "retry_count n + 1" msg ?s2]
      by (simp add: findById_sql_update del: job_failed_fields)
  next
    case False
    then have "worker_run e now j (Rejected c m) s =
        updateNotificationStatus now ?i ''failed''
          (''Max retries ('' @ toString_nat (maxRetries cfg) @ '') exceeded. Last error: '' @ msg) ?s2"
      using w f1 cfg by (simp add: on_failed_def Let_def del: job_failed_fields)
    then show ?thesis
      using False f1 q2 nidn
      by (simp add: rows_updateNotificationStatus findById_sql_update del: job_failed_fields)
  qed
qed

theorem failed_delivery_retried_up_to_policy_witness:
  "findById 1 (rows (run test_env [Submit 0 slack_body, LateWrite 0 (Queued 1)] init))
     = Some (hd (rows (run test_env [Submit 0 slack_body, LateWrite 0 (Queued 1)] init)))
   \<and> retryConfigs ''slack'' = Own \<lparr>maxRetries = 3, backoffType = Fixed,
         backoffDelay = 10000, maxBackoffDelay = None\<rparr>
   \<and> call_adapter test_env ''slack'' (Rejected Permanent ''Not Found'')
     = Inl ''Slack webhook failed: Not Found''
   \<and> map_option (\<lambda>r. (status r, retry_count r))
       (findById 1 (rows (worker_run test_env 1
          (hd (queue (run test_env [Submit 0 slack_body, LateWrite 0 (Queued 1)] init)))
          (Rejected Permanent ''Not Found'')
          (run test_env [Submit 0 slack_body, LateWrite 0 (Queued 1)] init))))
     = Some (''processing'', 1)"
proof -
  let ?s = "run test_env [Submit 0 slack_body, LateWrite 0 (Queued 1)] init"
  let ?cfg = "\<lparr>maxRetries = 3, backoffType = Fixed,
         backoffDelay = 10000, maxBackoffDelay = None\<rparr>"
  have q: "map (\<lambda>j. (notificationId (job_data j), job_channel (job_data j))) (queue ?s) = [(1, ''slack'')]"
    by (simp add: eval_defs slack_body_def)
  have r: "map (\<lambda>r. (nid r, retry_count r)) (rows ?s) = [(1, 0)]"
    by (simp add: eval_defs slack_body_def)
  from q have j: "notificationId (job_data (hd (queue ?s))) = 1" "job_channel (job_data (hd (queue ?s))) = ''slack''"
    by (cases "queue ?s"; simp)+
  from r have n: "findById 1 (rows ?s) = Some (hd (rows ?s))" "retry_count (hd (rows ?s)) = 0"
    by (cases "rows ?s"; simp add: findById_def)+
  have c: "retryConfigs ''slack'' = Own ?cfg" by (rule retryConfigs_values)
  have a: "call_adapter test_env ''slack'' (Rejected Permanent ''Not Found'')
     = Inl ''Slack webhook failed: Not Found''"
    by (simp add: call_adapter_def toLowerCase_names slackService_send_def)
  have "map_option (\<lambda>r. (status r, retry_count r))
       (findById 1 (rows (worker_run test_env 1 (hd (queue ?s)) (Rejected Permanent ''Not Found'') ?s)))
     = Some (''processing'', 1)"
    using failed_delivery_retried_up_to_policy [of "hd (queue ?s)" ?s "hd (rows ?s)" ?cfg test_env
        Permanent "''Not Found''" "''Slack webhook failed: Not Found''" 1]
      j n c a by simp
  with n(1) c a show ?thesis by blast
qed

section \<open>Sent and failed rows\<close>

text \<open>
  Claim C5 as it is stated fails, in three ways. The manual retry behind
  POST /api/notifications/:id/retry moves a row that is sent to queued, once its write
  is made. The retry of all failed jobs behind POST /api/queue/retry-failed puts the
  jobs of a row that is failed back in the queue, and the next of them that goes through
  a worker moves the row to processing and, when it is delivered, to sent. And with no
  admin operation at all: the job of a submission is delivered before
  \<^verbatim>\<open>queueNotification\<close> has written the status queued, and that write then moves the
  row from sent to queued, where it stays.
\<close>

theorem admin_retry_requeues_sent_row:
  "map status
     (rows (run test_env [Submit 0 sms_body, LateWrite 0 (Queued 1),
                          Work 1 ''notification-1'' (Accepted ''m1'')] init))
     = [''sent'']
   \<and> map status
     (rows (run test_env [Submit 0 sms_body, LateWrite 0 (Queued 1),
                          Work 1 ''notification-1'' (Accepted ''m1''),
                          AdminRetry 2 1, LateWrite 3 (RetryQueued 1)] init))
     = [''queued'']
   \<and> map status
     (rows (run test_env [Submit 0 slack_body, LateWrite 0 (Queued 1),
                          Work 1 ''notification-1'' (Rejected Transient ''502''),
                          Work 2 ''retry-1-1'' (Rejected Transient ''502''),
                          Work 3 ''retry-1-2'' (Rejected Transient ''502''),
                          Work 4 ''retry-1-3'' (Rejected Transient ''502'')] init))
     = [''failed'']
   \<and> map status
     (rows (run test_env [Submit 0 slack_body, LateWrite 0 (Queued 1),
                          Work 1 ''notification-1'' (Rejected Transient ''502''),
                          Work 2 ''retry-1-1'' (Rejected Transient ''502''),
                          Work 3 ''retry-1-2'' (Rejected Transient ''502''),
                          Work 4 ''retry-1-3'' (Rejected Transient ''502''),
                          RetryFailed,
                          Work 5 ''notification-1'' (Accepted ''ok'')] init))
     = [''sent'']
   \<and> map status
     (rows (run test_env [Submit 0 sms_body, Work 1 ''notification-1'' (Accepted ''m1'')] init))
     = [''sent'']
   \<and> map status
     (rows (run test_env [Submit 0 sms_body, Work 1 ''notification-1'' (Accepted ''m1''),
                          LateWrite 2 (Queued 1)] init))
     = [''queued'']"
  by (simp add: eval_defs sms_body_def slack_body_def)

text \<open>
  Claim C5, amended. In every execution made of submissions, of the status writes they
  leave in flight, of jobs going through the workers (claim, adapter call, the handlers
  of completed and failed jobs, the retries they schedule), of health probes and of
  stalled events, a row whose status is sent or failed, and for which no status write
  is in flight, keeps that status in every continuation of the execution that contains
  neither a manual retry nor a retry of the failed jobs.
\<close>

theorem terminal_status_final_without_admin:
  assumes "list_all (\<lambda>ev. \<not> is_admin ev) evs" and "list_all (\<lambda>ev. \<not> is_admin ev) evs'"
    and "status_of i (run e evs init) = Some st" and "terminal st"
    and "\<not> write_pending i (run e evs init)"
  shows "status_of i (run e (evs @ evs') init) = Some st"
proof -
  have "dispatch_inv (run e evs init)"
    using inv_run [OF dispatch_inv_init assms(1)] by simp
  then have "keeps_terminal (run e evs init) (run e evs' (run e evs init))"
    using inv_run [OF _ assms(2)] by simp
  then show ?thesis
    using assms(3,4,5) by (simp add: run_append keeps_terminal_def)
qed

theorem terminal_status_final_without_admin_witness:
  "list_all (\<lambda>ev. \<not> is_admin ev)
     [Submit 0 sms_body, LateWrite 0 (Queued 1), Work 1 ''notification-1'' (Accepted ''m1'')]
   \<and> list_all (\<lambda>ev. \<not> is_admin ev)
     [Work 2 ''notification-1'' (Rejected Transient ''502''), LateWrite 2 (Queued 1),
      Submit 3 sms_body, Probe True ''end'']
   \<and> status_of 1 (run test_env [Submit 0 sms_body, LateWrite 0 (Queued 1),
                                 Work 1 ''notification-1'' (Accepted ''m1'')] init)
     = Some ''sent''
   \<and> terminal ''sent''
   \<and> \<not> write_pending 1 (run test_env [Submit 0 sms_body, LateWrite 0 (Queued 1),
                                        Work 1 ''notification-1'' (Accepted ''m1'')] init)
   \<and> status_of 1 (run test_env ([Submit 0 sms_body, LateWrite 0 (Queued 1),
                                  Work 1 ''notification-1'' (Accepted ''m1'')]
         @ [Work 2 ''notification-1'' (Rejected Transient ''502''), LateWrite 2 (Queued 1),
            Submit 3 sms_body, Probe True ''end'']) init)
     = Some ''sent''"
proof -
  let ?evs = "[Submit 0 sms_body, LateWrite 0 (Queued 1), Work 1 ''notification-1'' (Accepted ''m1'')]"
  let ?evs' = "[Work 2 ''notification-1'' (Rejected Transient ''502''), LateWrite 2 (Queued 1),
      Submit 3 sms_body, Probe True ''end'']"
  have h: "status_of 1 (run test_env ?evs init) = Some ''sent''"
    by (simp add: eval_defs status_of_def sms_body_def)
  have p: "\<not> write_pending 1 (run test_env ?evs init)"
    by (simp add: eval_defs write_pending_def sms_body_def)
  have t: "terminal ''sent''" by (simp add: terminal_def)
  have "status_of 1 (run test_env (?evs @ ?evs') init) = Some ''sent''"
    using terminal_status_final_without_admin [OF _ _ h t p, of ?evs'] by simp
  with h t p show ?thesis by simp
qed

section \<open>Stalled rows\<close>

lemma no_stall_recovered_iff:
  "no_stall_recovered s = (\<forall>l \<in> set (logs s). log_status l \<noteq> ''stall_recovered'')"
  by (simp add: no_stall_recovered_def filter_empty_conv)

lemma logs_updateNotificationStatus:
  "logs (updateNotificationStatus now i st msg s) = logs s @ [log_entry now i st msg]"
  by (simp add: updateNotificationStatus_def)

lemma log_status_log_entry [simp]: "log_status (log_entry now i st msg) = st"
  by (simp add: log_entry_def)

lemma nsr_updateNotificationStatus:
  "st \<noteq> ''stall_recovered'' \<Longrightarrow> no_stall_recovered s \<Longrightarrow>
     no_stall_recovered (updateNotificationStatus now i st msg s)"
  by (simp add: no_stall_recovered_iff logs_updateNotificationStatus)

lemma nsr_queue_update [simp]:
  "no_stall_recovered (s\<lparr>queue := q\<rparr>) = no_stall_recovered s"
  "no_stall_recovered (s\<lparr>in_flight := w\<rparr>) = no_stall_recovered s"
  "no_stall_recovered (s\<lparr>failed_jobs := f\<rparr>) = no_stall_recovered s"
  by (simp_all add: no_stall_recovered_def)

lemma nsr_processNotification:
  "no_stall_recovered s \<Longrightarrow> no_stall_recovered (snd (processNotification e now jd reply s))"
  by (simp add: processNotification_def Let_def no_stall_recovered_iff logs_updateNotificationStatus
      split: sum.splits)

lemma nsr_on_failed:
  "no_stall_recovered s \<Longrightarrow> no_stall_recovered (on_failed now jd msg s)"
  by (simp add: on_failed_def scheduleRetry_def Let_def no_stall_recovered_iff
      logs_updateNotificationStatus split: option.splits policy_lookup.splits)

lemma nsr_worker_run:
  assumes "no_stall_recovered s"
  shows "no_stall_recovered (worker_run e now j reply s)"
proof -
  let ?s0 = "s\<lparr>queue := filter (\<lambda>x. jobId x \<noteq> jobId j) (queue s)\<rparr>"
  have p: "no_stall_recovered (snd (processNotification e now (job_data j) reply ?s0))"
    using assms by (simp add: nsr_processNotification)
  show ?thesis
  proof (cases "findById (notificationId (job_data j)) (rows s)")
    case None
    then show ?thesis using assms by (simp add: worker_run_def Let_def job_failed_def)
  next
    case (Some n)
    obtain r s1 where ps: "processNotification e now (job_data j) reply ?s0 = (r, s1)"
      by (cases "processNotification e now (job_data j) reply ?s0")
    then have s1: "no_stall_recovered s1" using p by simp
    show ?thesis
    proof (cases r)
      case None
      then show ?thesis
        using Some ps s1
        by (simp add: worker_run_def Let_def on_completed_def nsr_updateNotificationStatus)
    next
      case (Some err)
      have "no_stall_recovered (job_failed j s1)" using s1 by (simp add: job_failed_def)
      then have "no_stall_recovered (on_failed now (job_data j) err (job_failed j s1))"
        by (rule nsr_on_failed)
      then show ?thesis
        using \<open>findById (notificationId (job_data j)) (rows s) = Some n\<close> ps Some
        by (simp add: worker_run_def Let_def)
    qed
  qed
qed

lemma nsr_send_one:
  "no_stall_recovered s \<Longrightarrow> no_stall_recovered (snd (send_one True e now request ch s))"
  by (simp add: send_one_def Let_def created_def leave_pending_def enqueue_def
      no_stall_recovered_iff split: option.splits sum.splits prod.splits)

lemma nsr_send_loop:
  "no_stall_recovered s \<Longrightarrow> no_stall_recovered (snd (send_loop True e now request chs acc s))"
proof (induction chs arbitrary: acc s)
  case Nil
  then show ?case by simp
next
  case (Cons ch chs)
  have one: "no_stall_recovered (snd (send_one True e now request ch s))"
    using Cons.prems by (rule nsr_send_one)
  show ?case
  proof (cases "send_one True e now request ch s")
    case (Pair res s1)
    then show ?thesis
      using one Cons.IH [of s1] by (cases res) simp_all
  qed
qed

lemma nsr_step:
  assumes "no_stall_recovered s"
  shows "no_stall_recovered (step e ev s)"
proof (cases ev)
  case (Submit now body)
  then show ?thesis
    using assms nsr_send_loop [of s e now body _ "[]"]
    by (simp add: step_def submit_unfold split: option.splits json.splits)
next
  case (LateWrite now w)
  then show ?thesis
    using assms
    by (simp add: step_def late_write_def mark_queued_def Let_def no_stall_recovered_iff
        logs_updateNotificationStatus split: pending_write.splits)
next
  case (Work now jid reply)
  then show ?thesis
    using assms nsr_worker_run by (simp add: step_def split: option.splits)
next
  case (AdminRetry now i)
  then show ?thesis
    using assms
    by (simp add: step_def retry_begin_def leave_pending_def enqueue_def Let_def
        split: option.splits)
next
  case RetryFailed
  then show ?thesis
    using assms by (simp add: step_def retryFailedJobs_def no_stall_recovered_def)
next
  case (Probe a b)
  then show ?thesis using assms by (simp add: step_def health_interval_def)
next
  case (Stalled jid)
  then show ?thesis using assms by (simp add: step_def on_stalled_def)
qed

lemma nsr_run: "no_stall_recovered s \<Longrightarrow> no_stall_recovered (run e evs s)"
  by (induction evs arbitrary: s) (simp_all add: nsr_step)

lemma probe_step: "is_probe ev \<Longrightarrow> step e ev s = s"
  by (cases ev) (simp_all add: step_def health_interval_def on_stalled_def)

lemma probe_run: "list_all is_probe evs \<Longrightarrow> run e evs s = s"
  by (induction evs arbitrary: s) (simp_all add: probe_step)

text \<open>A row that has no job in the broker gets none without an admin operation.\<close>

lemma idle_appended:
  assumes "idle i s" and "appended s s'"
  shows "idle i s'"
proof (cases "s' = s")
  case True
  then show ?thesis using assms(1) by simp
next
  case False
  from assms(2) False obtain r where nx: "next_id s' = Suc (next_id s)"
    and qq: "queue s' = queue s \<or>
            (\<exists>j. notificationId (job_data j) = next_id s \<and> queue s' = queue_add j (queue s))"
    by (auto simp add: appended_def)
  have "i \<noteq> next_id s" using assms(1) by (simp add: idle_def)
  then have "pending_for i (queue s') = pending_for i (queue s)"
    using qq by (auto simp add: pending_for_queue_add_other)
  then show ?thesis using assms(1) nx by (simp add: idle_def)
qed

lemma idle_send_loop:
  "idle i s \<Longrightarrow> idle i (snd (send_loop True e now request chs acc s))"
proof (induction chs arbitrary: acc s)
  case Nil
  then show ?case by simp
next
  case (Cons ch chs)
  have one: "idle i (snd (send_one True e now request ch s))"
    using Cons.prems send_one_shape by (rule idle_appended)
  show ?case
  proof (cases "send_one True e now request ch s")
    case (Pair res s1)
    then show ?thesis
      using one Cons.IH [of s1] by (cases res) simp_all
  qed
qed

lemma idle_worker_run:
  assumes "idle i s" and "j \<in> set (queue s)"
  shows "idle i (worker_run e now j reply s)"
proof -
  let ?s' = "worker_run e now j reply s"
  let ?qf = "filter (\<lambda>x. jobId x \<noteq> jobId j) (queue s)"
  have nx: "next_id ?s' = next_id s"
    and qq: "queue ?s' = ?qf \<or>
         (\<exists>rj. notificationId (job_data rj) = notificationId (job_data j) \<and>
               queue ?s' = queue_add rj ?qf)"
    using worker_run_shape [of e now j reply s] by auto
  have "notificationId (job_data j) \<noteq> i"
    using assms by (auto simp add: idle_def pending_for_def filter_empty_conv)
  then have "pending_for i (queue ?s') = pending_for i ?qf"
    using qq by (auto simp add: pending_for_queue_add_other)
  then show ?thesis
    using assms(1) nx by (simp add: idle_def pending_for_filter)
qed

lemma idle_step:
  assumes "idle i s" and "\<not> is_admin ev"
  shows "idle i (step e ev s)"
proof (cases ev)
  case (Submit now body)
  then show ?thesis
    using assms(1) idle_send_loop [of i s e now body _ "[]"]
    by (simp add: step_def submit_unfold split: option.splits json.splits)
next
  case (LateWrite now w)
  then show ?thesis
    using assms(1)
    by (simp add: step_def late_write_def mark_queued_def Let_def idle_def
        split: pending_write.splits)
next
  case (Work now jid reply)
  show ?thesis
  proof (cases "find (\<lambda>j. jobId j = jid) (queue s)")
    case None
    then show ?thesis using Work assms(1) by (simp add: step_def)
  next
    case (Some j)
    then have "j \<in> set (queue s)" by (auto simp add: find_Some_iff)
    then show ?thesis
      using Work Some assms(1) idle_worker_run [of i s j e now reply] by (simp add: step_def)
  qed
next
  case (AdminRetry now i)
  then show ?thesis using assms(2) by simp
next
  case RetryFailed
  then show ?thesis using assms(2) by simp
next
  case (Probe a b)
  then show ?thesis using assms(1) by (simp add: step_def health_interval_def)
next
  case (Stalled jid)
  then show ?thesis using assms(1) by (simp add: step_def on_stalled_def)
qed

lemma idle_run:
  "idle i s \<Longrightarrow> list_all (\<lambda>ev. \<not> is_admin ev) evs \<Longrightarrow> idle i (run e evs s)"
  by (induction evs arbitrary: s) (simp_all add: idle_step)

text \<open>
  Claim C6 as it is stated fails: a row left in processing an hour ago, with no job in
  the broker, is listed by \<^verbatim>\<open>getStaleNotifications\<close>, but the interval of the worker
  enqueues nothing and writes no \<open>stall_recovered\<close> log row.
\<close>

theorem stale_row_is_not_recovered:
  "getStaleNotifications 30 3600000
     (rows (run test_env [Submit 0 fax_body, LateWrite 0 (Queued 1),
                          Work 1 ''notification-1'' (Accepted ''m1'')] init))
     = rows (run test_env [Submit 0 fax_body, LateWrite 0 (Queued 1),
                           Work 1 ''notification-1'' (Accepted ''m1'')] init)
   \<and> map (\<lambda>r. (status r, last_processed_at r))
     (rows (run test_env [Submit 0 fax_body, LateWrite 0 (Queued 1),
                          Work 1 ''notification-1'' (Accepted ''m1'')] init))
     = [(''processing'', Some 1)]
   \<and> queue (run test_env [Submit 0 fax_body, LateWrite 0 (Queued 1),
                           Work 1 ''notification-1'' (Accepted ''m1'')] init) = []
   \<and> queue (snd (health_interval True ''ready''
        (run test_env [Submit 0 fax_body, LateWrite 0 (Queued 1),
                       Work 1 ''notification-1'' (Accepted ''m1'')] init))) = []
   \<and> filter (\<lambda>l. log_status l = ''stall_recovered'') (logs (snd (health_interval True ''ready''
        (run test_env [Submit 0 fax_body, LateWrite 0 (Queued 1),
                       Work 1 ''notification-1'' (Accepted ''m1'')] init)))) = []"
  by (simp add: eval_defs fax_body_def getStaleNotifications_def is_stale_def)

text \<open>
  Claim C6, amended. The interval of the worker writes to the console exactly when the
  health check fails (the counters of the broker cannot be read, or the connection is not
  ready); it and the handler of the stalled event leave rows, jobs and logs as they are,
  and so does every sequence of them. A row that has no job in the broker, stale or
  not, gets none in any execution without an admin operation, and no execution at all
  writes a \<open>stall_recovered\<close> log row. \<^verbatim>\<open>getStaleNotifications\<close> returns exactly the
  rows in processing whose \<open>last_processed_at\<close> is more than the given number of minutes
  old, the oldest first.
\<close>

theorem interval_only_probes_health:
  "(fst (health_interval statsRead redisStatus s) = [] \<longleftrightarrow> statsRead \<and> redisStatus = ''ready'')
   \<and> snd (health_interval statsRead redisStatus s) = s
   \<and> snd (on_stalled jid s) = s
   \<and> (list_all is_probe probes \<longrightarrow> run e probes s = s)
   \<and> (i < next_id s \<and> pending_for i (queue s) = [] \<and> list_all (\<lambda>ev. \<not> is_admin ev) evs
        \<longrightarrow> pending_for i (queue (run e evs s)) = [])
   \<and> filter (\<lambda>l. log_status l = ''stall_recovered'') (logs (run e evs' init)) = []
   \<and> set (getStaleNotifications m now tbl) =
       {r \<in> set tbl. status r = ''processing'' \<and>
          (\<exists>t. last_processed_at r = Some t \<and> t < now - m * 60000)}
   \<and> sorted (map (\<lambda>r. case last_processed_at r of Some t \<Rightarrow> t | None \<Rightarrow> 0)
        (getStaleNotifications m now tbl))"
proof -
  have a: "(fst (health_interval statsRead redisStatus s) = [] \<longleftrightarrow> statsRead \<and> redisStatus = ''ready'')"
    by (simp add: health_interval_def healthCheck_def)
  have b: "snd (health_interval statsRead redisStatus s) = s" "snd (on_stalled jid s) = s"
    by (simp_all add: health_interval_def on_stalled_def)
  have c: "list_all is_probe probes \<longrightarrow> run e probes s = s"
    by (simp add: probe_run)
  have d: "i < next_id s \<and> pending_for i (queue s) = [] \<and> list_all (\<lambda>ev. \<not> is_admin ev) evs
        \<longrightarrow> pending_for i (queue (run e evs s)) = []"
    using idle_run [of i s evs e] by (simp add: idle_def)
  have "no_stall_recovered init" by (simp add: no_stall_recovered_def init_def)
  then have "no_stall_recovered (run e evs' init)" by (rule nsr_run)
  then have f: "filter (\<lambda>l. log_status l = ''stall_recovered'') (logs (run e evs' init)) = []"
    by (simp add: no_stall_recovered_def)
  have g: "set (getStaleNotifications m now tbl) =
       {r \<in> set tbl. status r = ''processing'' \<and>
          (\<exists>t. last_processed_at r = Some t \<and> t < now - m * 60000)}"
    by (auto simp add: getStaleNotifications_def is_stale_def split: option.splits)
  have h: "sorted (map (\<lambda>r. case last_processed_at r of Some t \<Rightarrow> t | None \<Rightarrow> 0)
        (getStaleNotifications m now tbl))"
    by (simp add: getStaleNotifications_def)
  from a b c d f g h show ?thesis by blast
qed

theorem interval_only_probes_health_witness:
  "list_all is_probe [Probe True ''end'', Stalled ''notification-1'', Probe False ''ready'']
   \<and> run test_env [Probe True ''end'', Stalled ''notification-1'', Probe False ''ready'']
       (run test_env [Submit 0 fax_body, LateWrite 0 (Queued 1),
                      Work 1 ''notification-1'' (Accepted ''m1'')] init)
     = run test_env [Submit 0 fax_body, LateWrite 0 (Queued 1),
                     Work 1 ''notification-1'' (Accepted ''m1'')] init
   \<and> 1 < next_id (run test_env [Submit 0 fax_body, LateWrite 0 (Queued 1),
                     Work 1 ''notification-1'' (Accepted ''m1'')] init)
   \<and> pending_for 1 (queue (run test_env [Submit 0 fax_body, LateWrite 0 (Queued 1),
                     Work 1 ''notification-1'' (Accepted ''m1'')] init)) = []
   \<and> list_all (\<lambda>ev. \<not> is_admin ev) [Probe True ''ready'', Submit 3600000 sms_body, Probe True ''ready'']
   \<and> pending_for 1 (queue (run test_env [Probe True ''ready'', Submit 3600000 sms_body, Probe True ''ready'']
       (run test_env [Submit 0 fax_body, LateWrite 0 (Queued 1),
                      Work 1 ''notification-1'' (Accepted ''m1'')] init))) = []
   \<and> getStaleNotifications 30 3600000
        [(row_of_user 1 7 10)\<lparr>status := ''processing'', last_processed_at := Some 20\<rparr>]
     = [(row_of_user 1 7 10)\<lparr>status := ''processing'', last_processed_at := Some 20\<rparr>]"
proof -
  let ?s = "run test_env [Submit 0 fax_body, LateWrite 0 (Queued 1),
                     Work 1 ''notification-1'' (Accepted ''m1'')] init"
  let ?probes = "[Probe True ''end'', Stalled ''notification-1'', Probe False ''ready'']"
  let ?evs = "[Probe True ''ready'', Submit 3600000 sms_body, Probe True ''ready'']"
  note t = interval_only_probes_health [of True "''end''" ?s "''j''" ?probes test_env 1 ?evs "[]" 30 3600000 "[]"]
  have p: "list_all is_probe ?probes" by simp
  have n: "list_all (\<lambda>ev. \<not> is_admin ev) ?evs" by simp
  have i: "1 < next_id ?s" "pending_for 1 (queue ?s) = []"
    by (simp_all add: eval_defs fax_body_def pending_for_def)
  have r1: "run test_env ?probes ?s = ?s" using t p by blast
  have r2: "pending_for 1 (queue (run test_env ?evs ?s)) = []" using t i n by blast
  have g: "getStaleNotifications 30 3600000
        [(row_of_user 1 7 10)\<lparr>status := ''processing'', last_processed_at := Some 20\<rparr>]
     = [(row_of_user 1 7 10)\<lparr>status := ''processing'', last_processed_at := Some 20\<rparr>]"
    by (simp add: getStaleNotifications_def is_stale_def)
  from p n i r1 r2 g show ?thesis by blast
qed

section \<open>Retry delays\<close>

lemma retryDelay_table:
  assumes "retryConfigs ch = Own cfg" and "1 \<le> k"
  shows "retryDelay cfg k = spec_delay cfg k" and "spec_delay cfg k \<le> spec_cap cfg"
  using assms
  by (auto simp add: retryConfigs_def retryConfigs_table_def retryDelay_def spec_delay_def
      spec_cap_def split: if_splits)

text \<open>
  Claim C7. For every channel of the policy table and every retry attempt \<open>k \<ge> 1\<close>, the
  retry job that \<^verbatim>\<open>scheduleRetry\<close> hands to the broker, also when the handler of failed
  jobs calls it, carries the delay the specification gives: the minimum of base times
  \<open>2 ^ (k - 1)\<close> and the cap for an exponential policy, the base for a fixed one; and
  that delay never exceeds the cap, which is base times 10 when the policy has none.
  The computation gives the specified delay for every policy, of the table or not, whose
  cap is not 0, and the capped one for every such policy that is exponential or has no
  cap.
\<close>

theorem scheduled_retry_delay_matches_policy:
  assumes cfg: "retryConfigs (job_channel jd) = Own cfg" and k: "1 \<le> k"
  shows "queue (scheduleRetry now jd k msg s) = queue_add (retry_job jd k (spec_delay cfg k)) (queue s)
       \<and> (jobId (retry_job jd k (spec_delay cfg k)) \<notin> set (map jobId (queue s)) \<longrightarrow>
            map job_delay (queue (scheduleRetry now jd k msg s))
              = map job_delay (queue s) @ [spec_delay cfg k])
       \<and> spec_delay cfg k \<le> spec_cap cfg
       \<and> (findById (notificationId jd) (rows s) = Some n \<and> retry_count n < maxRetries cfg \<longrightarrow>
            queue (on_failed now jd msg s)
              = queue_add (retry_job jd (retry_count n + 1) (spec_delay cfg (retry_count n + 1))) (queue s))
       \<and> (maxBackoffDelay p \<noteq> Some 0 \<longrightarrow> retryDelay p k = spec_delay p k)
       \<and> (maxBackoffDelay p \<noteq> Some 0 \<and> (backoffType p = Exponential \<or> maxBackoffDelay p = None) \<longrightarrow>
            retryDelay p k \<le> spec_cap p)"
proof -
  have q: "queue (scheduleRetry now jd k msg s) = queue_add (retry_job jd k (spec_delay cfg k)) (queue s)"
    using scheduleRetry_effect(1) [OF cfg, of now k msg s] retryDelay_table(1) [OF cfg k] by simp
  have d: "jobId (retry_job jd k (spec_delay cfg k)) \<notin> set (map jobId (queue s)) \<longrightarrow>
            map job_delay (queue (scheduleRetry now jd k msg s))
              = map job_delay (queue s) @ [spec_delay cfg k]"
    unfolding q by (simp add: queue_add_def retry_job_def)
  have c: "spec_delay cfg k \<le> spec_cap cfg" using retryDelay_table(2) [OF cfg k] .
  have f: "findById (notificationId jd) (rows s) = Some n \<and> retry_count n < maxRetries cfg \<longrightarrow>
            queue (on_failed now jd msg s)
              = queue_add (retry_job jd (retry_count n + 1) (spec_delay cfg (retry_count n + 1))) (queue s)"
  proof
    assume a: "findById (notificationId jd) (rows s) = Some n \<and> retry_count n < maxRetries cfg"
    then have "on_failed now jd msg s = scheduleRetry now jd (retry_count n + 1) msg s"
      using on_failed_retry [of jd s n cfg now msg] cfg by simp
    then show "queue (on_failed now jd msg s)
              = queue_add (retry_job jd (retry_count n + 1) (spec_delay cfg (retry_count n + 1))) (queue s)"
      using scheduleRetry_effect(1) [OF cfg, of now "retry_count n + 1" msg s]
        retryDelay_table(1) [OF cfg, of "retry_count n + 1"] by simp
  qed
  have g: "maxBackoffDelay p \<noteq> Some 0 \<longrightarrow> retryDelay p k = spec_delay p k"
    by (auto simp add: retryDelay_def spec_delay_def spec_cap_def
        split: option.splits backoff.splits)
  have h: "maxBackoffDelay p \<noteq> Some 0 \<and> (backoffType p = Exponential \<or> maxBackoffDelay p = None) \<longrightarrow>
            retryDelay p k \<le> spec_cap p"
    by (auto simp add: retryDelay_def spec_cap_def split: option.splits)
  from q d c f g h show ?thesis by blast
qed

theorem scheduled_retry_delay_matches_policy_witness:
  "retryConfigs ''email'' = Own \<lparr>maxRetries = 5, backoffType = Exponential, backoffDelay = 2000,
                   maxBackoffDelay = Some 300000\<rparr>
   \<and> (1::nat) \<le> 9
   \<and> map (\<lambda>j. (jobId j, job_delay j))
       (queue (scheduleRetry 5
          \<lparr>notificationId = 1, job_channel = ''email'', job_recipient = ''a@b.c'',
           job_subject = Some ''Hi'', job_content = ''Hello'', job_userId = Some 1,
           job_priority = ''normal''\<rparr> 9 ''Email service is not configured'' init))
     = [(''retry-1-9'', 300000)]
   \<and> maxBackoffDelay \<lparr>maxRetries = 3, backoffType = Exponential, backoffDelay = 1000,
                      maxBackoffDelay = None\<rparr> \<noteq> Some 0
   \<and> retryDelay \<lparr>maxRetries = 3, backoffType = Exponential, backoffDelay = 1000,
                  maxBackoffDelay = None\<rparr> 9 = 10000
   \<and> map (\<lambda>j. (jobId j, job_delay j))
       (queue (run test_env [Submit 0 email_body, LateWrite 0 (Queued 1),
                             Work 1 ''notification-1'' (Accepted ''m1''),
                             Work 2 ''retry-1-1'' (Accepted ''m2'')] init))
     = [(''retry-1-2'', 4000)]"
proof -
  let ?jd = "\<lparr>notificationId = 1, job_channel = ''email'', job_recipient = ''a@b.c'',
           job_subject = Some ''Hi'', job_content = ''Hello'', job_userId = Some 1,
           job_priority = ''normal''\<rparr>"
  let ?cfg = "\<lparr>maxRetries = 5, backoffType = Exponential, backoffDelay = 2000,
                   maxBackoffDelay = Some 300000\<rparr>"
  let ?p = "\<lparr>maxRetries = 3, backoffType = Exponential, backoffDelay = 1000,
                      maxBackoffDelay = None\<rparr>"
  have c: "retryConfigs (job_channel ?jd) = Own ?cfg" by (simp add: retryConfigs_values)
  have k: "(1::nat) \<le> 9" by simp
  note t = scheduled_retry_delay_matches_policy [OF c k, of 5 "''Email service is not configured''" init
      "row_of_user 1 1 0" ?p]
  have sd: "spec_delay ?cfg 9 = 300000" "spec_delay ?p 9 = 10000"
    by (simp_all add: spec_delay_def spec_cap_def)
  have "queue (scheduleRetry 5 ?jd 9 ''Email service is not configured'' init)
      = queue_add (retry_job ?jd 9 300000) []"
    using t sd by (simp add: init_def)
  then have q: "map (\<lambda>j. (jobId j, job_delay j))
       (queue (scheduleRetry 5 ?jd 9 ''Email service is not configured'' init))
     = [(''retry-1-9'', 300000)]"
    by (simp add: queue_add_def retry_job_def toString_nat_small)
  have p0: "maxBackoffDelay ?p \<noteq> Some 0" by simp
  have p: "retryDelay ?p 9 = 10000" using t sd p0 by simp
  have r: "map (\<lambda>j. (jobId j, job_delay j))
       (queue (run test_env [Submit 0 email_body, LateWrite 0 (Queued 1),
                             Work 1 ''notification-1'' (Accepted ''m1''),
                             Work 2 ''retry-1-1'' (Accepted ''m2'')] init))
     = [(''retry-1-2'', 4000)]"
    by (simp add: eval_defs email_body_def)
  from c k q p0 p r show ?thesis by simp
qed

section \<open>Validation of a submission\<close>








end
